theory Spec2Isabelle
  imports Complex_Main "HOL-Library.AList" "HOL-Library.Multiset" "HOL-Library.Product_Lexorder"
begin

section \<open>Python string primitives used by the document assembler\<close>

text \<open>
  Text is a \<^typ>\<open>string\<close>, one \<^typ>\<open>char\<close> per character (the texts considered are
  ASCII).  The backslash, the straight double quote and the backquote cannot be written
  inside a string literal, so they get names.
\<close>

abbreviation BSLASH :: char where "BSLASH \<equiv> CHR 0x5C"
abbreviation DQUOTE :: char where "DQUOTE \<equiv> CHR 0x22"
abbreviation BQUOTE :: char where "BQUOTE \<equiv> CHR 0x60"
abbreviation NEWLINE :: char where "NEWLINE \<equiv> CHR 0x0A"

text \<open>
  \<^verbatim>\<open>s.replace(old, new)\<close> for a one-character \<^verbatim>\<open>old\<close>, which is the only way the
  source calls it: every occurrence, left to right.
\<close>

definition str_replace :: "char \<Rightarrow> string \<Rightarrow> string \<Rightarrow> string" where
  "str_replace old new s = concat (map (\<lambda>c. if c = old then new else [c]) s)"

text \<open>\<^verbatim>\<open>str.isspace\<close> on the ASCII range.\<close>

definition isspace :: "char \<Rightarrow> bool" where
  "isspace c = (c \<in> set [CHR 0x09, CHR 0x0A, CHR 0x0B, CHR 0x0C, CHR 0x0D,
                          CHR 0x1C, CHR 0x1D, CHR 0x1E, CHR 0x1F, CHR 0x20])"

definition strip :: "string \<Rightarrow> string" where
  "strip s = rev (dropWhile isspace (rev (dropWhile isspace s)))"

text \<open>\<^verbatim>\<open>s.split('\n\n')\<close>: cut at every blank line, scanning left to right.\<close>

fun split_blank :: "string \<Rightarrow> string \<Rightarrow> string list" where
  "split_blank acc (a # b # cs) =
     (if a = NEWLINE \<and> b = NEWLINE then rev acc # split_blank [] cs
      else split_blank (a # acc) (b # cs))"
| "split_blank acc cs = [rev acc @ cs]"

text \<open>\<^verbatim>\<open>sep.join(xs)\<close>.\<close>

fun join :: "string \<Rightarrow> string list \<Rightarrow> string" where
  "join sep [] = []"
| "join sep [x] = x"
| "join sep (x # y # ys) = x @ sep @ join sep (y # ys)"

section \<open>Text cleaning (\<^verbatim>\<open>PDFGenerator._clean_text_for_latex\<close>)\<close>

text \<open>
  The dictionary \<^verbatim>\<open>latex_special_chars\<close>, in insertion order, which is the order in
  which Python iterates over it.
\<close>

definition latex_special_chars :: "(char \<times> string) list" where
  "latex_special_chars =
     [(CHR ''&'', [BSLASH, CHR ''&'']),
      (CHR ''%'', [BSLASH, CHR ''%'']),
      (CHR ''$'', [BSLASH, CHR ''$'']),
      (CHR ''#'', [BSLASH, CHR ''#'']),
      (CHR ''^'', BSLASH # ''textasciicircum{}''),
      (CHR ''_'', [BSLASH, CHR ''_'']),
      (CHR ''{'', [BSLASH, CHR ''{'']),
      (CHR ''}'', [BSLASH, CHR ''}'']),
      (CHR ''~'', BSLASH # ''textasciitilde{}''),
      (BSLASH, BSLASH # ''textbackslash{}'')]"

text \<open>
  The loop \<^verbatim>\<open>for char, replacement in latex_special_chars.items()\<close>: one whole-text
  replacement after the other, each on the result of the one before.
\<close>

definition escape_special_chars :: "string \<Rightarrow> string" where
  "escape_special_chars text =
     foldl (\<lambda>clean_text (char, replacement). str_replace char replacement clean_text)
       text latex_special_chars"

text \<open>The three quote replacements of the source, all three on the straight quote.\<close>

definition handle_quotes :: "string \<Rightarrow> string" where
  "handle_quotes text =
     (let clean_text = str_replace DQUOTE [CHR 0x27, CHR 0x27] text;
          clean_text = str_replace DQUOTE [BQUOTE, BQUOTE] clean_text;
          clean_text = str_replace DQUOTE [CHR 0x27, CHR 0x27] clean_text
      in clean_text)"

definition clean_text_for_latex :: "string \<Rightarrow> string" where
  "clean_text_for_latex text =
     (let clean_text = handle_quotes (escape_special_chars text);
          paragraphs = split_blank [] clean_text
      in join [NEWLINE, NEWLINE]
           (map (\<lambda>para. BSLASH # ''noindent '' @ strip para)
              (filter (\<lambda>para. strip para \<noteq> []) paragraphs)))"

text \<open>
  The substitution as the specification words it: one pass over the input, each special
  character replaced by its entry, every other character kept.
\<close>

definition spec_escape :: "string \<Rightarrow> string" where
  "spec_escape text =
     concat (map (\<lambda>c. case map_of latex_special_chars c of Some r \<Rightarrow> r | None \<Rightarrow> [c]) text)"

text \<open>Decimal rendering of integers, as an f-string does it.\<close>

definition digit_char :: "nat \<Rightarrow> char" where
  "digit_char d = ''0123456789'' ! d"

function str_nat :: "nat \<Rightarrow> string" where
  "str_nat n = (if n < 10 then [digit_char n] else str_nat (n div 10) @ [digit_char (n mod 10)])"
  by pat_completeness auto
termination
  by (relation "measure id") auto

declare str_nat.simps [simp del]

definition str_int :: "int \<Rightarrow> string" where
  "str_int i = (if i < 0 then CHR ''-'' # str_nat (nat (- i)) else str_nat (nat i))"

text \<open>Python's truth value of an optional string: \<^verbatim>\<open>None\<close> and \<^verbatim>\<open>''\<close> are false.\<close>

definition truthy :: "string option \<Rightarrow> bool" where
  "truthy v = (case v of None \<Rightarrow> False | Some s \<Rightarrow> s \<noteq> [])"

datatype py_error =
    AttributeError
  | KeyError string
  | IndexError
  | ValueError string
  | IntegrityError

section \<open>Content items and scenes\<close>

text \<open>
  A row of the \<^verbatim>\<open>content\<close> table as \<^verbatim>\<open>get_project_content\<close> returns it.  The
  nullable columns are options; \<^verbatim>\<open>metadata\<close> is the decoded JSON object, of which
  only string entries are read.
\<close>

record content_item =
  cid :: string
  project_id :: string
  content_type :: string
  content_text :: "string option"
  image_path :: "string option"
  audio_path :: "string option"
  order_index :: int
  metadata :: "(string \<times> string) list"
  c_created_at :: nat

text \<open>The dictionary that \<^verbatim>\<open>_group_content_by_scene\<close> builds for each scene.\<close>

record scene =
  title :: string
  text_items :: "content_item list"
  image_items :: "content_item list"
  audio_items :: "content_item list"

text \<open>
  The settings dictionary, with the keys that the generator reads.  A key that is not
  set is \<^const>\<open>None\<close>; \<^verbatim>\<open>image_width\<close> is kept as the text that the f-string prints.
\<close>

record pdf_settings =
  book_type :: "string option"
  image_width :: "string option"
  center_images :: "bool option"
  author :: "string option"

section \<open>Grouping (\<^verbatim>\<open>PDFGenerator._group_content_by_scene\<close>)\<close>

text \<open>
  The dictionary \<^verbatim>\<open>scenes\<close> is an association list in insertion order.  One turn of
  the loop: create the scene of the item's index if it is not there, then append the item
  to the list of its type; an item of any other type is appended nowhere.
\<close>

definition group_step :: "(int \<times> scene) list \<Rightarrow> content_item \<Rightarrow> (int \<times> scene) list" where
  "group_step scenes0 item =
     (let scene_index = order_index item div 10;
          scenes =
            (if map_of scenes0 scene_index = None
             then AList.update scene_index
                    \<lparr>title = ''Scene '' @ str_int (scene_index + 1),
                     text_items = [], image_items = [], audio_items = []\<rparr> scenes0
             else scenes0)
      in if content_type item = ''text''
         then AList.map_entry scene_index (\<lambda>s. s\<lparr>text_items := text_items s @ [item]\<rparr>) scenes
         else if content_type item = ''image''
         then AList.map_entry scene_index (\<lambda>s. s\<lparr>image_items := image_items s @ [item]\<rparr>) scenes
         else if content_type item = ''audio''
         then AList.map_entry scene_index (\<lambda>s. s\<lparr>audio_items := audio_items s @ [item]\<rparr>) scenes
         else scenes)"

text \<open>
  \<^verbatim>\<open>[scenes[key] for key in sorted(scenes.keys())]\<close>.  Every key looked up comes from
  the dictionary itself, so the lookup finds it.
\<close>

definition group_content_by_scene :: "content_item list \<Rightarrow> scene list" where
  "group_content_by_scene content_items =
     (let scenes = foldl group_step [] content_items
      in map (\<lambda>key. the (map_of scenes key)) (sort (map fst scenes)))"

section \<open>Image blocks and sections (\<^verbatim>\<open>_create_image_section\<close>, \<^verbatim>\<open>_build_content_sections\<close>)\<close>

definition lstrip_slash :: "string \<Rightarrow> string" where
  "lstrip_slash s = dropWhile (\<lambda>c. c = CHR ''/'') s"

text \<open>The block for an image whose path is known.\<close>

definition image_block :: "pdf_settings option \<Rightarrow> string \<Rightarrow> (string \<times> string) list \<Rightarrow> string" where
  "image_block settings path0 meta =
     (let image_path = (if path0 \<noteq> [] \<and> hd path0 = CHR ''/'' then lstrip_slash path0 else path0);
          width = (case settings of None \<Rightarrow> ''0.8''
                   | Some st \<Rightarrow> (case image_width st of None \<Rightarrow> ''0.8'' | Some w \<Rightarrow> w));
          centering = (case settings of None \<Rightarrow> True
                   | Some st \<Rightarrow> (case center_images st of None \<Rightarrow> True | Some b \<Rightarrow> b));
          image_latex = [BSLASH # ''begin{figure}[h!]''];
          image_latex = (if centering then image_latex @ [BSLASH # ''centering''] else image_latex);
          image_latex = image_latex @
            [BSLASH # ''includegraphics[width='' @ width @ BSLASH # ''textwidth]{'' @ image_path @ ''}''];
          image_latex = (if truthy (map_of meta ''caption'')
             then image_latex @
               [BSLASH # ''caption{'' @ clean_text_for_latex (the (map_of meta ''caption'')) @ ''}'']
             else image_latex);
          image_latex = image_latex @ [BSLASH # ''end{figure}'', BSLASH # ''vspace{0.5em}'']
      in join [NEWLINE] image_latex)"

text \<open>
  \<^verbatim>\<open>_create_image_section\<close>: \<^verbatim>\<open>image_path.startswith\<close> on a null path raises
  \<^verbatim>\<open>AttributeError\<close>.
\<close>

definition create_image_section :: "content_item \<Rightarrow> pdf_settings option \<Rightarrow> py_error + string" where
  "create_image_section image_item settings =
     (case image_path image_item of
        None \<Rightarrow> Inl AttributeError
      | Some p \<Rightarrow> Inr (image_block settings p (metadata image_item)))"

text \<open>
  The test \<^verbatim>\<open>item['image_path'] and os.path.exists(item['image_path'])\<close>; the file
  system is the predicate \<open>path_exists\<close>.
\<close>

definition image_present :: "(string \<Rightarrow> bool) \<Rightarrow> content_item \<Rightarrow> bool" where
  "image_present path_exists item =
     (case image_path item of None \<Rightarrow> False | Some p \<Rightarrow> p \<noteq> [] \<and> path_exists p)"

text \<open>The loop over the image items of a scene, appending to \<open>scene_sections\<close>.\<close>

fun add_images ::
  "(string \<Rightarrow> bool) \<Rightarrow> pdf_settings option \<Rightarrow> content_item list \<Rightarrow> string list
     \<Rightarrow> py_error + string list" where
  "add_images path_exists settings [] scene_sections = Inr scene_sections"
| "add_images path_exists settings (item # items) scene_sections =
     (if image_present path_exists item
      then (case create_image_section item settings of
              Inl e \<Rightarrow> Inl e
            | Inr image_section \<Rightarrow>
                add_images path_exists settings items (scene_sections @ [image_section]))
      else add_images path_exists settings items scene_sections)"

text \<open>The loop over the text items of a scene.\<close>

fun add_texts :: "content_item list \<Rightarrow> string list \<Rightarrow> string list" where
  "add_texts [] scene_sections = scene_sections"
| "add_texts (item # items) scene_sections =
     (if truthy (content_text item)
      then add_texts items (scene_sections @ [clean_text_for_latex (the (content_text item))])
      else add_texts items scene_sections)"

definition scene_heading :: "pdf_settings option \<Rightarrow> string \<Rightarrow> string" where
  "scene_heading settings t =
     (if (case settings of None \<Rightarrow> False | Some st \<Rightarrow> book_type st = Some ''comic'')
      then BSLASH # ''section*{'' @ t @ ''}''
      else BSLASH # ''chapter{'' @ t @ ''}'')"

text \<open>
  The body of the loop over the scenes: the sections of one scene.  The counter
  \<^verbatim>\<open>current_scene\<close> of the source is only incremented, never read, and is left out.
\<close>

definition scene_sections_of ::
  "(string \<Rightarrow> bool) \<Rightarrow> pdf_settings option \<Rightarrow> scene \<Rightarrow> py_error + string list" where
  "scene_sections_of path_exists settings scene_content =
     (let scene_sections = [];
          scene_sections = (if title scene_content \<noteq> []
             then scene_sections @ [scene_heading settings (title scene_content)]
             else scene_sections);
          scene_sections = add_texts (text_items scene_content) scene_sections
      in case add_images path_exists settings (image_items scene_content) scene_sections of
           Inl e \<Rightarrow> Inl e
         | Inr scene_sections \<Rightarrow> Inr (scene_sections @ [BSLASH # ''vspace{1em}'']))"

fun build_scenes ::
  "(string \<Rightarrow> bool) \<Rightarrow> pdf_settings option \<Rightarrow> scene list \<Rightarrow> string list
     \<Rightarrow> py_error + string list" where
  "build_scenes path_exists settings [] sections = Inr sections"
| "build_scenes path_exists settings (scene_content # rest) sections =
     (case scene_sections_of path_exists settings scene_content of
        Inl e \<Rightarrow> Inl e
      | Inr scene_sections \<Rightarrow>
          build_scenes path_exists settings rest
            (if scene_sections \<noteq> [] then sections @ scene_sections else sections))"

definition build_content_sections ::
  "(string \<Rightarrow> bool) \<Rightarrow> content_item list \<Rightarrow> pdf_settings option \<Rightarrow> py_error + string list" where
  "build_content_sections path_exists content_items settings =
     build_scenes path_exists settings (group_content_by_scene content_items) []"

section \<open>What grouping is to compute\<close>

text \<open>
  The specification's description of grouping: the key of an item is its order index
  integer-divided by ten; the keys that occur, in ascending order; and the bucket of a key,
  holding, per type, the items of that key in the order of the input.
\<close>

definition scene_key :: "content_item \<Rightarrow> int" where
  "scene_key item = order_index item div 10"

definition scene_keys :: "content_item list \<Rightarrow> int list" where
  "scene_keys content_items = sort (remdups (map scene_key content_items))"

definition typed_items :: "string \<Rightarrow> int \<Rightarrow> content_item list \<Rightarrow> content_item list" where
  "typed_items t k content_items =
     filter (\<lambda>item. scene_key item = k \<and> content_type item = t) content_items"

definition bucket :: "content_item list \<Rightarrow> int \<Rightarrow> scene" where
  "bucket content_items k =
     \<lparr>title = ''Scene '' @ str_int (k + 1),
      text_items = typed_items ''text'' k content_items,
      image_items = typed_items ''image'' k content_items,
      audio_items = typed_items ''audio'' k content_items\<rparr>"

text \<open>
  The invariant of the grouping loop after the items \<open>xs\<close>: the dictionary has one
  entry per key that occurred, and that entry is the bucket of the key.
\<close>

definition scenes_ok :: "content_item list \<Rightarrow> (int \<times> scene) list \<Rightarrow> bool" where
  "scenes_ok xs scenes \<longleftrightarrow>
     distinct (map fst scenes) \<and>
     map_of scenes = (\<lambda>k. if k \<in> scene_key ` set xs then Some (bucket xs k) else None)"

text \<open>
  The two content items of the specification's end-to-end scenario: a text at order index
  0 and an image at order index 1 whose file is not on disk.
\<close>

definition example_text :: content_item where
  "example_text =
     \<lparr>cid = ''c1'', project_id = ''p1'', content_type = ''text'',
      content_text = Some ''Once upon a time & far away'', image_path = None,
      audio_path = None, order_index = 0, metadata = [], c_created_at = 0\<rparr>"

definition example_image :: content_item where
  "example_image =
     \<lparr>cid = ''c2'', project_id = ''p1'', content_type = ''image'',
      content_text = None, image_path = Some ''generated/missing.png'',
      audio_path = None, order_index = 1, metadata = [], c_created_at = 1\<rparr>"

section \<open>The content store (\<^verbatim>\<open>DatabaseManager\<close>)\<close>

text \<open>
  A row of the \<^verbatim>\<open>projects\<close> table.  A timestamp is a number of seconds, the value of
  \<^verbatim>\<open>CURRENT_TIMESTAMP\<close> being an argument of every operation that reads the clock;
  \<^verbatim>\<open>settings\<close> is the JSON text that the column holds.
\<close>

record project =
  pid :: string
  name :: string
  ptype :: string
  created_at :: nat
  updated_at :: nat
  settings :: string
  status :: string

text \<open>The two tables that the operations below touch, each in row order.\<close>

record database =
  projects :: "project list"
  content :: "content_item list"

text \<open>\<^verbatim>\<open>get_project\<close>: \<^verbatim>\<open>fetchone\<close> gives the first row of the id, or \<^verbatim>\<open>None\<close>.\<close>

definition get_project :: "database \<Rightarrow> string \<Rightarrow> project option" where
  "get_project db proj_id = find (\<lambda>p. pid p = proj_id) (projects db)"

text \<open>
  \<^verbatim>\<open>get_projects\<close>: the active rows, of the given type when the argument is a non-empty
  string, most recently updated first.
\<close>

definition get_projects :: "database \<Rightarrow> string option \<Rightarrow> project list" where
  "get_projects db project_type =
     (let rows =
        (if truthy project_type
         then filter (\<lambda>p. ptype p = the project_type \<and> status p = ''active'') (projects db)
         else filter (\<lambda>p. status p = ''active'') (projects db))
      in rev (sort_key updated_at rows))"




text \<open>\<^verbatim>\<open>delete_project\<close>: one \<^verbatim>\<open>UPDATE\<close> on the rows of the id.\<close>

definition delete_project :: "database \<Rightarrow> nat \<Rightarrow> string \<Rightarrow> bool \<times> database" where
  "delete_project db now proj_id =
     (True, db\<lparr>projects :=
        map (\<lambda>p. if pid p = proj_id then p\<lparr>status := ''deleted'', updated_at := now\<rparr> else p)
          (projects db)\<rparr>)"


text \<open>\<^verbatim>\<open>get_project_content\<close>: the rows of the project by order index, then creation time.\<close>

definition get_project_content :: "database \<Rightarrow> string \<Rightarrow> content_item list" where
  "get_project_content db proj_id =
     sort_key (\<lambda>c. (order_index c, c_created_at c))
       (filter (\<lambda>c. project_id c = proj_id) (content db))"

section \<open>Compilation (\<^verbatim>\<open>PDFGenerator.compile_pdf\<close>)\<close>

text \<open>
  Files are association lists from a name to the content.  The world has the lasting
  files, by path, and the temporary directories that exist, each with its files.
\<close>

type_synonym files = "(string \<times> string) list"

record world =
  disk :: files
  temp_dirs :: "(nat \<times> files) list"

text \<open>What \<^verbatim>\<open>subprocess.run\<close> gives: a finished process, a timeout, or another exception.\<close>

record completed_process =
  returncode :: int
  stdout :: string
  stderr :: string

datatype run_outcome =
    Completed completed_process
  | TimeoutExpired
  | Raised string

text \<open>
  What the generator does not decide: whether the compiler answers \<^verbatim>\<open>--version\<close>,
  whether writing \<^verbatim>\<open>document.tex\<close> raises, what a run of the compiler on a directory
  returns and leaves there, and whether the copy raises (having written part of the target
  or nothing).
\<close>

record environment =
  output_dir :: string
  latex_installed :: bool
  write_error :: "string option"
  run_latex :: "files \<Rightarrow> run_outcome \<times> files"
  copy_error :: "(string \<times> string option) option"

definition path_join :: "string \<Rightarrow> string \<Rightarrow> string" where
  "path_join a b =
     (if b \<noteq> [] \<and> hd b = CHR ''/'' then b
      else if a = [] \<or> last a = CHR ''/'' then a @ b
      else a @ ''/'' @ b)"

text \<open>\<^verbatim>\<open>tempfile.TemporaryDirectory()\<close>: a new, empty directory under a name not in use.\<close>

definition mkdtemp :: "world \<Rightarrow> nat \<times> world" where
  "mkdtemp w =
     (let d = Suc (fold max (map fst (temp_dirs w)) 0)
      in (d, w\<lparr>temp_dirs := AList.update d [] (temp_dirs w)\<rparr>))"

text \<open>Leaving the \<^verbatim>\<open>with\<close> block: the directory and all that is in it are removed.\<close>

definition cleanup :: "nat \<Rightarrow> world \<Rightarrow> world" where
  "cleanup d w = w\<lparr>temp_dirs := AList.delete d (temp_dirs w)\<rparr>"

text \<open>
  The first run and, when asked for and the first run exits with zero, the second; the
  outcome is \<^verbatim>\<open>final_result\<close>, or the exception of the run that raised.
\<close>

definition run_passes :: "environment \<Rightarrow> files \<Rightarrow> bool \<Rightarrow> run_outcome \<times> files" where
  "run_passes env fs compile_twice =
     (case run_latex env fs of
        (Completed result1, fs1) \<Rightarrow>
          (if compile_twice \<and> returncode result1 = 0 then run_latex env fs1
           else (Completed result1, fs1))
      | (TimeoutExpired, fs1) \<Rightarrow> (TimeoutExpired, fs1)
      | (Raised msg, fs1) \<Rightarrow> (Raised msg, fs1))"

text \<open>
  The error of a finished run that failed: \<^verbatim>\<open>final_result.stderr or final_result.stdout\<close>
  after the fixed first line.
\<close>

definition compilation_failed :: "completed_process \<Rightarrow> string" where
  "compilation_failed final_result =
     (let error_log = (if stderr final_result \<noteq> [] then stderr final_result
                       else stdout final_result)
      in ''LaTeX compilation failed:'' @ [NEWLINE] @ error_log)"

text \<open>The body of the \<^verbatim>\<open>with\<close> block, in the temporary directory \<open>temp_dir\<close>.\<close>

definition compile_body ::
  "environment \<Rightarrow> world \<Rightarrow> nat \<Rightarrow> string \<Rightarrow> string \<Rightarrow> bool
     \<Rightarrow> (string option \<times> string option) \<times> world" where
  "compile_body env w temp_dir latex_code output_filename compile_twice =
     (case write_error env of
        Some msg \<Rightarrow> ((None, Some (''PDF generation error: '' @ msg)), w)
      | None \<Rightarrow>
         (let (outcome, fs) = run_passes env [(''document.tex'', latex_code)] compile_twice;
              w1 = w\<lparr>temp_dirs := AList.update temp_dir fs (temp_dirs w)\<rparr>
          in case outcome of
               TimeoutExpired \<Rightarrow> ((None, Some ''LaTeX compilation timeout''), w1)
             | Raised msg \<Rightarrow> ((None, Some (''PDF generation error: '' @ msg)), w1)
             | Completed final_result \<Rightarrow>
                 (case map_of fs ''document.pdf'' of
                    Some pdf \<Rightarrow>
                      (if returncode final_result = 0
                       then (let output_path =
                                   path_join (output_dir env) (output_filename @ ''.pdf'')
                             in case copy_error env of
                                  None \<Rightarrow>
                                    ((Some output_path, None),
                                     w1\<lparr>disk := AList.update output_path pdf (disk w1)\<rparr>)
                                | Some (msg, None) \<Rightarrow>
                                    ((None, Some (''PDF generation error: '' @ msg)), w1)
                                | Some (msg, Some part) \<Rightarrow>
                                    ((None, Some (''PDF generation error: '' @ msg)),
                                     w1\<lparr>disk := AList.update output_path part (disk w1)\<rparr>))
                       else ((None, Some (compilation_failed final_result)), w1))
                  | None \<Rightarrow>
                      ((None, Some (compilation_failed final_result)), w1))))"

definition compile_pdf ::
  "environment \<Rightarrow> world \<Rightarrow> string \<Rightarrow> string \<Rightarrow> bool
     \<Rightarrow> (string option \<times> string option) \<times> world" where
  "compile_pdf env w latex_code output_filename compile_twice =
     (if \<not> latex_installed env
      then ((None, Some ''LaTeX is not installed or not accessible''), w)
      else (let (temp_dir, w1) = mkdtemp w;
                (res, w2) = compile_body env w1 temp_dir latex_code output_filename compile_twice
            in (res, cleanup temp_dir w2)))"

text \<open>
  A store with one active project, last updated at time 0, which owns the two example
  content items.
\<close>

definition example_project :: project where
  "example_project =
     \<lparr>pid = ''p1'', name = ''Story'', ptype = ''story'', created_at = 0, updated_at = 0,
      settings = ''{}'', status = ''active''\<rparr>"

definition example_db :: database where
  "example_db = \<lparr>projects = [example_project], content = [example_text, example_image]\<rparr>"

text \<open>
  Two environments for a run of \<^verbatim>\<open>compile_pdf\<close>: a compiler that stops on an error
  of the document, with exit code 1, its diagnostic on standard output and a log file left
  behind; and a compiler that hangs until the timeout.  The world has one earlier export.
\<close>

definition failing_env :: environment where
  "failing_env =
     \<lparr>output_dir = ''static/exports'', latex_installed = True, write_error = None,
      run_latex = (\<lambda>fs. (Completed \<lparr>returncode = 1, stdout = ''! Missing } inserted.'',
                                     stderr = []\<rparr>,
                         fs @ [(''document.log'', ''! Missing } inserted.'')])),
      copy_error = None\<rparr>"

definition hanging_env :: environment where
  "hanging_env =
     \<lparr>output_dir = ''static/exports'', latex_installed = True, write_error = None,
      run_latex = (\<lambda>fs. (TimeoutExpired, fs)),
      copy_error = None\<rparr>"

definition example_world :: world where
  "example_world = \<lparr>disk = [(''static/exports/old.pdf'', ''%PDF-1.5'')], temp_dirs = []\<rparr>"

section \<open>The audiobook companion (\<^verbatim>\<open>create_audiobook_companion\<close>)\<close>

text \<open>\<^verbatim>\<open>s.split()\<close>: the maximal runs of characters that are not white space.\<close>

fun split_ws :: "string \<Rightarrow> string \<Rightarrow> string list" where
  "split_ws cur [] = (if cur = [] then [] else [rev cur])"
| "split_ws cur (c # cs) =
     (if isspace c then (if cur = [] then split_ws [] cs else rev cur # split_ws [] cs)
      else split_ws (c # cur) cs)"

text \<open>\<^verbatim>\<open>os.path.basename\<close>: what follows the last slash.\<close>

definition basename :: "string \<Rightarrow> string" where
  "basename path = rev (takeWhile (\<lambda>c. c \<noteq> CHR ''/'') (rev path))"

text \<open>
  \<^verbatim>\<open>round(x, 1)\<close> on the exact value of \<open>x\<close>: the nearest multiple of one tenth, a
  value half-way between two going to the even one.
\<close>

definition round_half_even :: "rat \<Rightarrow> int" where
  "round_half_even x =
     (let f = \<lfloor>x\<rfloor>; d = x - of_int f
      in if d < 1 / 2 then f else if 1 / 2 < d then f + 1 else if even f then f else f + 1)"

definition py_round1 :: "rat \<Rightarrow> rat" where
  "py_round1 x = of_int (round_half_even (x * 10)) / 10"

text \<open>How an f-string prints a non-negative number with one decimal, such as \<^verbatim>\<open>0.1\<close>.\<close>

definition str_float1 :: "rat \<Rightarrow> string" where
  "str_float1 x = str_int \<lfloor>x\<rfloor> @ ''.'' @ [digit_char (nat (\<lfloor>x * 10\<rfloor> mod 10))]"

definition estimate_audio_duration :: "content_item \<Rightarrow> rat" where
  "estimate_audio_duration audio_item =
     (if truthy (content_text audio_item)
      then (let word_count = length (split_ws [] (the (content_text audio_item)))
            in py_round1 (of_nat word_count / 150))
      else 1)"

text \<open>The lines of the document before the tracks.\<close>

definition audiobook_header :: "project \<Rightarrow> string list" where
  "audiobook_header proj =
     [BSLASH # ''documentclass[a5paper,12pt]{article}'',
      BSLASH # ''usepackage[utf8]{inputenc}'',
      BSLASH # ''usepackage{graphicx}'',
      BSLASH # ''usepackage[margin=1in]{geometry}'',
      BSLASH # ''usepackage{hyperref}'',
      BSLASH # ''usepackage{xcolor}'',
      [],
      BSLASH # ''title{Audio Companion: '' @ clean_text_for_latex (name proj) @ ''}'',
      BSLASH # ''author{StoryWeaver AI}'',
      BSLASH # ''date{'' @ BSLASH # ''today}'',
      [],
      BSLASH # ''begin{document}'',
      BSLASH # ''maketitle'',
      BSLASH # ''newpage'',
      [],
      BSLASH # ''section*{How to Use This Audiobook}'',
      ''This companion guide contains instructions for accessing the audio narration of your story.'',
      BSLASH # ''vspace{1em}'',
      [],
      BSLASH # ''section*{Audio Tracks}'']"

text \<open>The four lines of track \<open>i\<close>, one turn of the loop over \<^verbatim>\<open>enumerate(audio_items, 1)\<close> (the list is \<open>audios\<close> below).\<close>

definition track_section :: "nat \<Rightarrow> content_item \<Rightarrow> string list" where
  "track_section i audio_item =
     (let audio_filename =
            (if truthy (audio_path audio_item) then basename (the (audio_path audio_item))
             else ''track_'' @ str_nat i @ ''.mp3'')
      in [BSLASH # ''subsection*{Track '' @ str_nat i @ ''}'',
          BSLASH # ''textbf{File:} '' @ audio_filename @ [BSLASH, BSLASH],
          BSLASH # ''textbf{Duration:} Approximately '' @
            str_float1 (estimate_audio_duration audio_item) @ '' minutes'' @ [BSLASH, BSLASH],
          BSLASH # ''vspace{1em}''])"

definition audiobook_lines :: "project \<Rightarrow> content_item list \<Rightarrow> string list" where
  "audiobook_lines proj audios =
     audiobook_header proj
     @ concat (map (\<lambda>(i, audio_item). track_section i audio_item) (enumerate 1 audios))
     @ [[], BSLASH # ''end{document}'']"

definition generate_audiobook_latex :: "project \<Rightarrow> content_item list \<Rightarrow> string" where
  "generate_audiobook_latex proj audios = join [NEWLINE] (audiobook_lines proj audios)"

definition create_audiobook_companion ::
  "environment \<Rightarrow> database \<Rightarrow> world \<Rightarrow> string \<Rightarrow> string
     \<Rightarrow> (string option \<times> string option) \<times> world" where
  "create_audiobook_companion env db w proj_id output_filename =
     (case get_project db proj_id of
        None \<Rightarrow> ((None, Some ''Project not found''), w)
      | Some proj \<Rightarrow>
          (let content_items = get_project_content db proj_id;
               audios = filter (\<lambda>item. content_type item = ''audio'') content_items
           in if audios = []
              then ((None, Some ''No audio content found in project''), w)
              else compile_pdf env w (generate_audiobook_latex proj audios)
                     (output_filename @ ''_audiobook'') True))"

text \<open>
  A narration of fifteen words for the example project, and the store that has it next to
  the text item.
\<close>

definition example_audio :: content_item where
  "example_audio =
     \<lparr>cid = ''c3'', project_id = ''p1'', content_type = ''audio'',
      content_text = Some ''a b c d e f g h i j k l m n o'', image_path = None,
      audio_path = Some ''static/generated/p1_scene_0.mp3'', order_index = 2, metadata = [],
      c_created_at = 2\<rparr>"

definition audio_db :: database where
  "audio_db = \<lparr>projects = [example_project], content = [example_text, example_audio]\<rparr>"

section \<open>Template filling (\<^verbatim>\<open>template['latex_template'].format(**template_vars)\<close>)\<close>
























section \<open>The rate limiter (\<^verbatim>\<open>RateLimiter\<close>)\<close>

text \<open>
  Times are real numbers of seconds; every reading of the clock (\<^verbatim>\<open>time.time()\<close>) is an
  argument of the method that reads it.
\<close>

record rate_limiter =
  max_requests :: int
  time_window :: real
  requests :: "real list"

definition RateLimiter :: "int \<Rightarrow> real \<Rightarrow> rate_limiter" where
  "RateLimiter max_req window = \<lparr>max_requests = max_req, time_window = window, requests = []\<rparr>"

definition can_make_request :: "real \<Rightarrow> rate_limiter \<Rightarrow> bool \<times> rate_limiter" where
  "can_make_request now rl =
     (let rl' = rl\<lparr>requests := filter (\<lambda>req_time. now - req_time < time_window rl) (requests rl)\<rparr>
      in (int (length (requests rl')) < max_requests rl', rl'))"

definition add_request :: "real \<Rightarrow> rate_limiter \<Rightarrow> rate_limiter" where
  "add_request now rl = rl\<lparr>requests := requests rl @ [now]\<rparr>"

text \<open>\<^verbatim>\<open>min\<close> of a list; of the empty list it raises \<^verbatim>\<open>ValueError\<close>.\<close>

fun list_min :: "real list \<Rightarrow> py_error + real" where
  "list_min [] = Inl (ValueError ''min() arg is an empty sequence'')"
| "list_min [x] = Inr x"
| "list_min (x # y # ys) = (case list_min (y # ys) of Inl e \<Rightarrow> Inl e | Inr m \<Rightarrow> Inr (min x m))"

text \<open>
  \<^verbatim>\<open>time_until_next_request\<close> reads the clock twice: in its call of
  \<^verbatim>\<open>can_make_request\<close> (\<open>now1\<close>) and for the result (\<open>now2\<close>).
\<close>

definition time_until_next_request ::
  "real \<Rightarrow> real \<Rightarrow> rate_limiter \<Rightarrow> (py_error + real) \<times> rate_limiter" where
  "time_until_next_request now1 now2 rl =
     (let (ok, rl') = can_make_request now1 rl
      in if ok then (Inr 0, rl')
         else (case list_min (requests rl') of
                 Inl e \<Rightarrow> (Inl e, rl')
               | Inr oldest_request \<Rightarrow> (Inr (time_window rl' - (now2 - oldest_request)), rl')))"

section \<open>Properties of text cleaning\<close>

lemma str_replace_append:
  "str_replace c r (xs @ ys) = str_replace c r xs @ str_replace c r ys"
  by (simp add: str_replace_def)

lemma escape_special_chars_append:
  "escape_special_chars (xs @ ys) = escape_special_chars xs @ escape_special_chars ys"
  by (simp add: escape_special_chars_def latex_special_chars_def str_replace_append)

lemma escape_special_chars_Nil: "escape_special_chars [] = []"
  by (simp add: escape_special_chars_def latex_special_chars_def str_replace_def)

lemma escape_special_chars_ampersand:
  "escape_special_chars ''&'' = BSLASH # ''textbackslash{}&''"
  by (simp add: escape_special_chars_def latex_special_chars_def str_replace_def)

text \<open>
  Every ampersand of the input, wherever it stands, leaves the loop as
  \<^verbatim>\<open>\textbackslash{}&\<close>: the backslash that the first rule put before it is rewritten
  by the last rule.
\<close>

lemma escape_special_chars_every_ampersand:
  "escape_special_chars (xs @ CHR ''&'' # ys) =
     escape_special_chars xs @ BSLASH # ''textbackslash{}&'' @ escape_special_chars ys"
proof -
  have "escape_special_chars (xs @ ''&'' @ ys) =
          escape_special_chars xs @ escape_special_chars ''&'' @ escape_special_chars ys"
    by (simp only: escape_special_chars_append)
  then show ?thesis
    by (simp add: escape_special_chars_ampersand)
qed

text \<open>
  C1.  The specification's example: the text \<^verbatim>\<open>Once upon a time & far away\<close>.  The
  one-pass substitution of the specification gives \<^verbatim>\<open>Once upon a time \& far away\<close>;
  the function of the source gives
  \<^verbatim>\<open>\noindent Once upon a time \textbackslash{}& far away\<close>, in which the ampersand is
  no longer escaped.
\<close>

theorem clean_text_for_latex_ampersand_example:
  "clean_text_for_latex ''Once upon a time & far away'' =
     BSLASH # ''noindent Once upon a time '' @ BSLASH # ''textbackslash{}& far away''
   \<and> spec_escape ''Once upon a time & far away'' =
     ''Once upon a time '' @ BSLASH # ''& far away''"
  by (simp add: clean_text_for_latex_def handle_quotes_def escape_special_chars_def
      latex_special_chars_def str_replace_def strip_def isspace_def spec_escape_def)

text \<open>
  C6.  The text \<^verbatim>\<open>"hi"\<close> in straight double quotes: both quotes, the opening one
  too, come out as two apostrophes; no opening-quote markup (two backquotes) is produced.
\<close>

theorem clean_text_for_latex_quotes_example:
  "clean_text_for_latex (DQUOTE # ''hi'' @ [DQUOTE]) =
     BSLASH # ''noindent '' @ [CHR 0x27, CHR 0x27] @ ''hi'' @ [CHR 0x27, CHR 0x27]"
  by (simp add: clean_text_for_latex_def handle_quotes_def escape_special_chars_def
      latex_special_chars_def str_replace_def strip_def isspace_def)

section \<open>Properties of grouping\<close>

lemma bucket_snoc_other:
  "scene_key x \<noteq> k \<Longrightarrow> bucket (xs @ [x]) k = bucket xs k"
  by (simp add: bucket_def typed_items_def)

lemma bucket_Nil_like:
  "k \<notin> scene_key ` set xs \<Longrightarrow>
     bucket xs k = \<lparr>title = ''Scene '' @ str_int (k + 1), text_items = [], image_items = [], audio_items = []\<rparr>"
  by (auto simp add: bucket_def typed_items_def filter_empty_conv)

lemma bucket_snoc_same:
  "bucket (xs @ [x]) (scene_key x) =
     (if content_type x = ''text'' then (bucket xs (scene_key x))\<lparr>text_items := text_items (bucket xs (scene_key x)) @ [x]\<rparr>
      else if content_type x = ''image'' then (bucket xs (scene_key x))\<lparr>image_items := image_items (bucket xs (scene_key x)) @ [x]\<rparr>
      else if content_type x = ''audio'' then (bucket xs (scene_key x))\<lparr>audio_items := audio_items (bucket xs (scene_key x)) @ [x]\<rparr>
      else bucket xs (scene_key x))"
  by (simp add: bucket_def typed_items_def)

lemma group_step_ok:
  assumes "scenes_ok xs scenes"
  shows "scenes_ok (xs @ [x]) (group_step scenes x)"
proof -
  let ?k = "scene_key x"
  let ?new = "\<lparr>title = ''Scene '' @ str_int (?k + 1), text_items = [], image_items = [], audio_items = []\<rparr>"
  let ?sc = "if map_of scenes ?k = None then AList.update ?k ?new scenes else scenes"
  from assms have d: "distinct (map fst scenes)"
    and m: "map_of scenes = (\<lambda>k. if k \<in> scene_key ` set xs then Some (bucket xs k) else None)"
    by (simp_all add: scenes_ok_def)
  have d1: "distinct (map fst ?sc)"
    using d by (simp add: distinct_update)
  have m1: "map_of ?sc = (\<lambda>k. if k \<in> insert ?k (scene_key ` set xs) then Some (bucket xs k) else None)"
  proof (cases "?k \<in> scene_key ` set xs")
    case True
    then show ?thesis using m by (auto simp: fun_eq_iff)
  next
    case False
    then have "map_of scenes ?k = None" using m by simp
    then show ?thesis using m False
      by (auto simp: fun_eq_iff update_conv' bucket_Nil_like)
  qed
  have step: "group_step scenes x =
     (if content_type x = ''text''
         then AList.map_entry ?k (\<lambda>s. s\<lparr>text_items := text_items s @ [x]\<rparr>) ?sc
         else if content_type x = ''image''
         then AList.map_entry ?k (\<lambda>s. s\<lparr>image_items := image_items s @ [x]\<rparr>) ?sc
         else if content_type x = ''audio''
         then AList.map_entry ?k (\<lambda>s. s\<lparr>audio_items := audio_items s @ [x]\<rparr>) ?sc
         else ?sc)"
    by (simp add: group_step_def scene_key_def Let_def)
  have d2: "distinct (map fst (group_step scenes x))"
    unfolding step using d1 by (simp add: distinct_map_entry)
  have m2: "map_of (group_step scenes x) k =
      (if k \<in> scene_key ` set (xs @ [x]) then Some (bucket (xs @ [x]) k) else None)" for k
  proof (cases "k = ?k")
    case True
    show ?thesis unfolding step True
      by (simp add: map_of_map_entry m1 bucket_snoc_same del: map_of_eq_None_iff)
  next
    case False
    then show ?thesis unfolding step
      by (simp add: map_of_map_entry m1 bucket_snoc_other del: map_of_eq_None_iff)
  qed
  show ?thesis
    unfolding scenes_ok_def using d2 m2 by (simp add: fun_eq_iff)
qed

lemma foldl_group_step_ok: "scenes_ok xs (foldl group_step [] xs)"
proof (induction xs rule: rev_induct)
  case Nil
  show ?case by (simp add: scenes_ok_def fun_eq_iff)
next
  case (snoc x xs)
  then show ?case by (simp add: group_step_ok)
qed

lemma scenes_ok_keys:
  assumes "scenes_ok xs scenes"
  shows "sort (map fst scenes) = scene_keys xs"
proof -
  from assms have d: "distinct (map fst scenes)"
    and m: "map_of scenes = (\<lambda>k. if k \<in> scene_key ` set xs then Some (bucket xs k) else None)"
    by (simp_all add: scenes_ok_def)
  have "fst ` set scenes = dom (map_of scenes)"
    by (simp add: dom_map_of_conv_image_fst)
  also have "\<dots> = scene_key ` set xs"
    unfolding m by (auto simp: dom_def)
  finally have s: "set (map fst scenes) = set (map scene_key xs)" by simp
  show ?thesis unfolding scene_keys_def
    by (rule sorted_distinct_set_unique) (use d s in simp_all)
qed

lemma group_content_by_scene_eq:
  "group_content_by_scene xs = map (bucket xs) (scene_keys xs)"
proof -
  let ?scenes = "foldl group_step [] xs"
  have ok: "scenes_ok xs ?scenes" by (rule foldl_group_step_ok)
  then have m: "map_of ?scenes = (\<lambda>k. if k \<in> scene_key ` set xs then Some (bucket xs k) else None)"
    by (simp add: scenes_ok_def)
  have keys: "sort (map fst ?scenes) = scene_keys xs" by (rule scenes_ok_keys [OF ok])
  have "map (\<lambda>key. the (map_of ?scenes key)) (scene_keys xs) = map (bucket xs) (scene_keys xs)"
    by (rule map_cong) (auto simp: m scene_keys_def)
  then show ?thesis
    by (simp add: group_content_by_scene_def keys)
qed

lemma scene_keys_props:
  "sorted (scene_keys xs)" "distinct (scene_keys xs)" "set (scene_keys xs) = scene_key ` set xs"
  by (simp_all add: scene_keys_def)

lemma scene_keys_mset:
  assumes "mset ys = mset xs"
  shows "scene_keys ys = scene_keys xs"
proof -
  from assms have "set ys = set xs" by (rule mset_eq_setD)
  then have s: "set (map scene_key ys) = set (map scene_key xs)" by simp
  show ?thesis unfolding scene_keys_def
  proof (rule sorted_distinct_set_unique)
    show "sorted (sort (remdups (map scene_key ys)))" by simp
    show "distinct (sort (remdups (map scene_key ys)))" by simp
    show "sorted (sort (remdups (map scene_key xs)))" by simp
    show "distinct (sort (remdups (map scene_key xs)))" by simp
    show "set (sort (remdups (map scene_key ys))) = set (sort (remdups (map scene_key xs)))"
      using s by simp
  qed
qed

lemma typed_items_mset:
  assumes "mset ys = mset xs"
  shows "mset (typed_items t k ys) = mset (typed_items t k xs)"
  unfolding typed_items_def mset_filter assms ..

lemma title_bucket: "title (bucket xs k) = ''Scene '' @ str_int (k + 1)"
  by (simp add: bucket_def)

lemma group_titles_mset:
  assumes "mset ys = mset xs"
  shows "map title (group_content_by_scene ys) = map title (group_content_by_scene xs)"
  unfolding group_content_by_scene_eq scene_keys_mset [OF assms]
  by (simp add: title_bucket)

text \<open>
  C3.  Grouping returns one bucket per key \<open>order_index div 10\<close> that occurs, the keys in
  strictly ascending order; the bucket of key \<open>k\<close> has the title \<^verbatim>\<open>Scene k+1\<close> and
  holds, per type, the items of that key.  A rearrangement of the input gives the same keys
  in the same order with the same titles, and every item stays in the bucket of its key.
\<close>

theorem group_content_by_scene_buckets:
  "group_content_by_scene xs = map (bucket xs) (scene_keys xs)
   \<and> sorted (scene_keys xs) \<and> distinct (scene_keys xs)
   \<and> set (scene_keys xs) = (\<lambda>item. order_index item div 10) ` set xs
   \<and> (\<forall>ys. mset ys = mset xs \<longrightarrow>
         map title (group_content_by_scene ys) = map title (group_content_by_scene xs)
         \<and> (\<forall>t k. mset (typed_items t k ys) = mset (typed_items t k xs)))"
proof (intro conjI allI impI)
  show "group_content_by_scene xs = map (bucket xs) (scene_keys xs)"
    by (rule group_content_by_scene_eq)
  show "sorted (scene_keys xs)" "distinct (scene_keys xs)"
    by (rule scene_keys_props)+
  show "set (scene_keys xs) = (\<lambda>item. order_index item div 10) ` set xs"
    unfolding scene_keys_props(3)
    by (rule image_cong) (simp_all add: scene_key_def)
next
  fix ys assume "mset ys = mset xs"
  then show "map title (group_content_by_scene ys) = map title (group_content_by_scene xs)"
    by (rule group_titles_mset)
next
  fix ys t k assume "mset ys = mset xs"
  then show "mset (typed_items t k ys) = mset (typed_items t k xs)"
    by (rule typed_items_mset)
qed
lemma example_fields:
  "order_index example_text = 0" "content_type example_text = ''text''"
  "order_index example_image = 1" "content_type example_image = ''image''"
  "content_text example_text = Some ''Once upon a time & far away''"
  "image_path example_image = Some ''generated/missing.png''"
  by (simp_all add: example_text_def example_image_def)

lemma str_int_1: "str_int 1 = ''1''"
  by (simp add: str_int_def str_nat.simps digit_char_def)

lemma example_bucket:
  "bucket [example_image, example_text] 0 =
     \<lparr>title = ''Scene 1'', text_items = [example_text], image_items = [example_image],
      audio_items = []\<rparr>"
  by (simp add: bucket_def typed_items_def scene_key_def example_fields str_int_1)

lemma example_keys: "scene_keys [example_image, example_text] = [0]"
  by (simp add: scene_keys_def scene_key_def example_fields)

text \<open>The two items of the specification's scenario, in both orders: one scene, ``Scene 1''.\<close>

theorem group_content_by_scene_buckets_witness:
  "mset [example_image, example_text] = mset [example_text, example_image]
   \<and> map title (group_content_by_scene [example_image, example_text]) = [''Scene 1'']
   \<and> map title (group_content_by_scene [example_text, example_image]) = [''Scene 1'']
   \<and> map text_items (group_content_by_scene [example_image, example_text]) = [[example_text]]
   \<and> map image_items (group_content_by_scene [example_image, example_text]) = [[example_image]]"
proof -
  let ?xs = "[example_image, example_text]"
  let ?ys = "[example_text, example_image]"
  have m: "mset ?ys = mset ?xs"
    by (simp add: add_mset_commute)
  note inst = group_content_by_scene_buckets [of ?xs]
  have g: "group_content_by_scene ?xs = map (bucket ?xs) (scene_keys ?xs)"
    using inst by (rule conjunct1)
  have "\<forall>ys. mset ys = mset ?xs \<longrightarrow>
         map title (group_content_by_scene ys) = map title (group_content_by_scene ?xs)
         \<and> (\<forall>t k. mset (typed_items t k ys) = mset (typed_items t k ?xs))"
    using inst by (elim conjE)
  with m have t: "map title (group_content_by_scene ?ys) = map title (group_content_by_scene ?xs)"
    by blast
  have g': "group_content_by_scene ?xs =
     [\<lparr>title = ''Scene 1'', text_items = [example_text], image_items = [example_image],
       audio_items = []\<rparr>]"
    unfolding g example_keys by (simp add: example_bucket)
  have c2: "map title (group_content_by_scene ?xs) = [''Scene 1'']"
    unfolding g' by simp
  have c3: "map title (group_content_by_scene ?ys) = [''Scene 1'']"
    unfolding t by (rule c2)
  have c4: "map text_items (group_content_by_scene ?xs) = [[example_text]]"
    unfolding g' by simp
  have c5: "map image_items (group_content_by_scene ?xs) = [[example_image]]"
    unfolding g' by simp
  show ?thesis
    by (intro conjI m [symmetric] c2 c3 c4 c5)
qed

section \<open>Properties of the section builder\<close>

lemma add_texts_eq:
  "add_texts items acc =
     acc @ map (\<lambda>item. clean_text_for_latex (the (content_text item)))
             (filter (\<lambda>item. truthy (content_text item)) items)"
  by (induction items arbitrary: acc) simp_all

lemma create_image_section_present:
  "image_present path_exists item \<Longrightarrow>
     create_image_section item st =
       Inr (image_block st (the (image_path item)) (metadata item))"
  by (simp add: image_present_def create_image_section_def split: option.splits)

lemma add_images_eq:
  "add_images path_exists st items acc =
     Inr (acc @ map (\<lambda>item. image_block st (the (image_path item)) (metadata item))
                  (filter (image_present path_exists) items))"
  by (induction items arbitrary: acc) (simp_all add: create_image_section_present)

lemma scene_sections_of_eq:
  "scene_sections_of path_exists st sc =
     Inr ((if title sc \<noteq> [] then [scene_heading st (title sc)] else [])
          @ map (\<lambda>item. clean_text_for_latex (the (content_text item)))
              (filter (\<lambda>item. truthy (content_text item)) (text_items sc))
          @ map (\<lambda>item. image_block st (the (image_path item)) (metadata item))
              (filter (image_present path_exists) (image_items sc))
          @ [BSLASH # ''vspace{1em}''])"
  by (simp add: scene_sections_of_def add_texts_eq add_images_eq)

lemma scene_sections_of_cong:
  assumes "title a = title b" "text_items a = text_items b"
    and "filter (image_present path_exists) (image_items a) =
         filter (image_present path_exists) (image_items b)"
  shows "scene_sections_of path_exists st a = scene_sections_of path_exists st b"
  unfolding scene_sections_of_eq using assms by simp

lemma build_scenes_Inr:
  "\<exists>sections. build_scenes path_exists st scenes acc = Inr sections"
proof (induction scenes arbitrary: acc)
  case Nil
  show ?case by simp
next
  case (Cons sc scenes)
  obtain ss where ss: "scene_sections_of path_exists st sc = Inr ss"
    using scene_sections_of_eq by blast
  show ?case using Cons.IH by (simp add: ss)
qed

lemma build_scenes_map_cong:
  assumes "\<And>k. scene_sections_of path_exists st (f k) = scene_sections_of path_exists st (g k)"
  shows "build_scenes path_exists st (map f ks) acc =
         build_scenes path_exists st (map g ks) acc"
  by (induction ks arbitrary: acc) (simp_all add: assms split: sum.splits)

lemma bucket_without_missing_image:
  assumes "content_type x = ''image''" "\<not> image_present path_exists x"
  shows "scene_sections_of path_exists st (bucket (xs @ x # ys) k) =
         scene_sections_of path_exists st (bucket (xs @ ys) k)"
proof (rule scene_sections_of_cong)
  show "title (bucket (xs @ x # ys) k) = title (bucket (xs @ ys) k)"
    by (simp add: bucket_def)
  show "text_items (bucket (xs @ x # ys) k) = text_items (bucket (xs @ ys) k)"
    using assms(1) by (simp add: bucket_def typed_items_def)
  show "filter (image_present path_exists) (image_items (bucket (xs @ x # ys) k)) =
        filter (image_present path_exists) (image_items (bucket (xs @ ys) k))"
    using assms(2) by (simp add: bucket_def typed_items_def)
qed

lemma scene_keys_shared:
  assumes "\<exists>y\<in>set (xs @ ys). scene_key y = scene_key x"
  shows "scene_keys (xs @ x # ys) = scene_keys (xs @ ys)"
proof -
  from assms have "scene_key x \<in> scene_key ` set (xs @ ys)"
    by (metis imageI)
  then have s: "scene_key ` set (xs @ x # ys) = scene_key ` set (xs @ ys)"
    by auto
  show ?thesis
  proof (rule sorted_distinct_set_unique)
    show "set (scene_keys (xs @ x # ys)) = set (scene_keys (xs @ ys))"
      unfolding scene_keys_props(3) by (rule s)
  qed (rule scene_keys_props)+
qed

text \<open>
  C8.  An image item \<open>x\<close> whose file is not on disk: assembling never reports an error; the
  sections are those assembled from the buckets of the other items alone, over the scenes
  of the whole input, so \<open>x\<close> contributes no image block; and where another item shares
  the scene of \<open>x\<close>, the result is the same as if \<open>x\<close> were not in the input at all.
\<close>

theorem build_content_sections_missing_image:
  assumes "content_type x = ''image''" and "\<not> image_present path_exists x"
  shows "(\<exists>sections. build_content_sections path_exists (xs @ x # ys) st = Inr sections)
    \<and> build_content_sections path_exists (xs @ x # ys) st =
        build_scenes path_exists st (map (bucket (xs @ ys)) (scene_keys (xs @ x # ys))) []
    \<and> ((\<exists>y\<in>set (xs @ ys). order_index y div 10 = order_index x div 10) \<longrightarrow>
        build_content_sections path_exists (xs @ x # ys) st =
        build_content_sections path_exists (xs @ ys) st)"
proof (intro conjI impI)
  show "\<exists>sections. build_content_sections path_exists (xs @ x # ys) st = Inr sections"
    unfolding build_content_sections_def by (rule build_scenes_Inr)
  show eq: "build_content_sections path_exists (xs @ x # ys) st =
        build_scenes path_exists st (map (bucket (xs @ ys)) (scene_keys (xs @ x # ys))) []"
    unfolding build_content_sections_def group_content_by_scene_eq
    by (rule build_scenes_map_cong) (rule bucket_without_missing_image [OF assms])
  assume "\<exists>y\<in>set (xs @ ys). order_index y div 10 = order_index x div 10"
  then have "\<exists>y\<in>set (xs @ ys). scene_key y = scene_key x"
    by (simp add: scene_key_def)
  then have "scene_keys (xs @ x # ys) = scene_keys (xs @ ys)"
    by (rule scene_keys_shared)
  with eq show "build_content_sections path_exists (xs @ x # ys) st =
        build_content_sections path_exists (xs @ ys) st"
    by (simp add: build_content_sections_def group_content_by_scene_eq)
qed

lemma example_single_keys: "scene_keys [example_text] = [0]"
  by (simp add: scene_keys_def scene_key_def example_fields)

lemma example_single_bucket:
  "bucket [example_text] 0 =
     \<lparr>title = ''Scene 1'', text_items = [example_text], image_items = [], audio_items = []\<rparr>"
  by (simp add: bucket_def typed_items_def scene_key_def example_fields str_int_1)

lemma build_example_text:
  "build_content_sections (\<lambda>p. False) [example_text] None =
     Inr [BSLASH # ''chapter{Scene 1}'',
          BSLASH # ''noindent Once upon a time '' @ BSLASH # ''textbackslash{}& far away'',
          BSLASH # ''vspace{1em}'']"
proof -
  have c: "clean_text_for_latex ''Once upon a time & far away'' =
     BSLASH # ''noindent Once upon a time '' @ BSLASH # ''textbackslash{}& far away''"
    by (simp add: clean_text_for_latex_def handle_quotes_def escape_special_chars_def
      latex_special_chars_def str_replace_def strip_def isspace_def)
  show ?thesis
    unfolding build_content_sections_def group_content_by_scene_eq example_single_keys
    by (simp add: example_single_bucket scene_sections_of_eq scene_heading_def truthy_def
        example_fields c)
qed

text \<open>
  The specification's scenario: the text item and the image item whose file is missing
  give one scene with its heading, the cleaned text and the scene break, and no figure.
\<close>

theorem build_content_sections_missing_image_witness:
  "content_type example_image = ''image''
   \<and> \<not> image_present (\<lambda>p. False) example_image
   \<and> (\<exists>y\<in>set [example_text]. order_index y div 10 = order_index example_image div 10)
   \<and> build_content_sections (\<lambda>p. False) [example_text, example_image] None =
     Inr [BSLASH # ''chapter{Scene 1}'',
          BSLASH # ''noindent Once upon a time '' @ BSLASH # ''textbackslash{}& far away'',
          BSLASH # ''vspace{1em}'']"
proof -
  have h1: "content_type example_image = ''image''"
    by (simp add: example_fields)
  have h2: "\<not> image_present (\<lambda>p. False) example_image"
    by (simp add: image_present_def example_fields)
  have h3: "\<exists>y\<in>set ([example_text] @ []). order_index y div 10 = order_index example_image div 10"
    by (simp add: example_fields)
  note inst = build_content_sections_missing_image
    [OF h1 h2, of "[example_text]" "[]" None]
  from inst have "(\<exists>y\<in>set ([example_text] @ []). order_index y div 10 = order_index example_image div 10) \<longrightarrow>
        build_content_sections (\<lambda>p. False) ([example_text] @ example_image # []) None =
        build_content_sections (\<lambda>p. False) ([example_text] @ []) None"
    by (elim conjE)
  with h3 have "build_content_sections (\<lambda>p. False) ([example_text] @ example_image # []) None =
        build_content_sections (\<lambda>p. False) ([example_text] @ []) None"
    by (rule rev_mp)
  then have e: "build_content_sections (\<lambda>p. False) [example_text, example_image] None =
        build_content_sections (\<lambda>p. False) [example_text] None"
    by simp
  have h3': "\<exists>y\<in>set [example_text]. order_index y div 10 = order_index example_image div 10"
    using h3 by simp
  show ?thesis
    unfolding e build_example_text
    by (intro conjI h1 h2 h3' refl)
qed

section \<open>Properties of the content store\<close>

lemma find_pid_map_same:
  assumes "\<And>p. pid (f p) = pid p"
  shows "find (\<lambda>p. pid p = i) (map (\<lambda>p. if pid p = i then f p else p) ps) =
         map_option f (find (\<lambda>p. pid p = i) ps)"
  by (induction ps) (simp_all add: assms)

lemma find_pid_map_other:
  assumes "\<And>p. pid (f p) = pid p" and "j \<noteq> i"
  shows "find (\<lambda>p. pid p = j) (map (\<lambda>p. if pid p = i then f p else p) ps) =
         find (\<lambda>p. pid p = j) ps"
  using assms(2) by (induction ps) (auto simp add: assms(1))



lemma get_project_delete_project:
  "get_project (snd (delete_project db now i)) i =
     map_option (\<lambda>p. p\<lparr>status := ''deleted'', updated_at := now\<rparr>) (get_project db i)"
  unfolding get_project_def delete_project_def
  by (simp add: find_pid_map_same)





lemma example_get_project: "get_project example_db ''p1'' = Some example_project"
  by (simp add: get_project_def example_db_def example_project_def)



lemma content_delete_project: "content (snd (delete_project db now i)) = content db"
  by (simp add: delete_project_def)

lemma projects_delete_project_frame:
  "map (\<lambda>q. (pid q, name q, ptype q, created_at q, settings q))
       (projects (snd (delete_project db now i))) =
   map (\<lambda>q. (pid q, name q, ptype q, created_at q, settings q)) (projects db)"
proof -
  have "map (\<lambda>q. (pid q, name q, ptype q, created_at q, settings q))
          (map (\<lambda>p. if pid p = i then p\<lparr>status := ''deleted'', updated_at := now\<rparr> else p) ps) =
        map (\<lambda>q. (pid q, name q, ptype q, created_at q, settings q)) ps" for ps
    by (induction ps) simp_all
  then show ?thesis by (simp add: delete_project_def)
qed

lemma projects_delete_project_others:
  "filter (\<lambda>q. pid q \<noteq> i) (projects (snd (delete_project db now i))) =
   filter (\<lambda>q. pid q \<noteq> i) (projects db)"
proof -
  have "filter (\<lambda>q. pid q \<noteq> i)
          (map (\<lambda>p. if pid p = i then p\<lparr>status := ''deleted'', updated_at := now\<rparr> else p) ps) =
        filter (\<lambda>q. pid q \<noteq> i) ps" for ps
    by (induction ps) simp_all
  then show ?thesis by (simp add: delete_project_def)
qed

lemma set_get_projects:
  "set (get_projects db t) \<subseteq> {q \<in> set (projects db). status q = ''active''}"
  by (auto simp add: get_projects_def Let_def)

lemma deleted_rows_not_active:
  assumes "q \<in> set (projects (snd (delete_project db now i)))" and "pid q = i"
  shows "status q = ''deleted''"
proof -
  from assms(1) obtain p0 where
    q: "q = (if pid p0 = i then p0\<lparr>status := ''deleted'', updated_at := now\<rparr> else p0)"
    unfolding delete_project_def by fastforce
  show ?thesis
  proof (cases "pid p0 = i")
    case True
    with q show ?thesis by simp
  next
    case False
    with q have "pid q \<noteq> i" by simp
    with assms(2) show ?thesis by simp
  qed
qed

lemma get_projects_excludes_deleted:
  "i \<notin> pid ` set (get_projects (snd (delete_project db now i)) t)"
proof
  assume "i \<in> pid ` set (get_projects (snd (delete_project db now i)) t)"
  then obtain q where q: "q \<in> set (get_projects (snd (delete_project db now i)) t)" "pid q = i"
    by auto
  with set_get_projects have "q \<in> set (projects (snd (delete_project db now i)))"
    and a: "status q = ''active''" by auto
  with q(2) have "status q = ''deleted''" by (simp add: deleted_rows_not_active)
  with a show False by simp
qed

text \<open>
  C10.  Deleting an existing project is a soft delete: \<^verbatim>\<open>get_project\<close> still returns
  the record, now with status \<^verbatim>\<open>deleted\<close> and the new \<^verbatim>\<open>updated_at\<close> and nothing else
  changed; no other column of any row and no other row changes; the content rows remain;
  and \<^verbatim>\<open>get_projects\<close> no longer lists the project.
\<close>

theorem delete_project_is_soft:
  assumes "get_project db i = Some p"
  shows "fst (delete_project db now i)
   \<and> get_project (snd (delete_project db now i)) i =
       Some (p\<lparr>status := ''deleted'', updated_at := now\<rparr>)
   \<and> map (\<lambda>q. (pid q, name q, ptype q, created_at q, settings q))
        (projects (snd (delete_project db now i))) =
      map (\<lambda>q. (pid q, name q, ptype q, created_at q, settings q)) (projects db)
   \<and> filter (\<lambda>q. pid q \<noteq> i) (projects (snd (delete_project db now i))) =
      filter (\<lambda>q. pid q \<noteq> i) (projects db)
   \<and> content (snd (delete_project db now i)) = content db
   \<and> get_project_content (snd (delete_project db now i)) i = get_project_content db i
   \<and> i \<notin> pid ` set (get_projects (snd (delete_project db now i)) t)"
proof (intro conjI)
  show "fst (delete_project db now i)"
    by (simp add: delete_project_def)
  show "get_project (snd (delete_project db now i)) i =
       Some (p\<lparr>status := ''deleted'', updated_at := now\<rparr>)"
    by (simp add: get_project_delete_project assms)
  show "get_project_content (snd (delete_project db now i)) i = get_project_content db i"
    by (simp add: get_project_content_def content_delete_project)
qed (rule projects_delete_project_frame projects_delete_project_others
      content_delete_project get_projects_excludes_deleted)+

theorem delete_project_is_soft_witness:
  "get_project example_db ''p1'' = Some example_project
   \<and> get_project (snd (delete_project example_db 5 ''p1'')) ''p1'' =
       Some (example_project\<lparr>status := ''deleted'', updated_at := 5\<rparr>)
   \<and> content (snd (delete_project example_db 5 ''p1'')) = [example_text, example_image]
   \<and> get_projects example_db None = [example_project]
   \<and> get_projects (snd (delete_project example_db 5 ''p1'')) None = []"
proof -
  note inst = delete_project_is_soft [OF example_get_project, of 5 None]
  have c1: "get_project (snd (delete_project example_db 5 ''p1'')) ''p1'' =
       Some (example_project\<lparr>status := ''deleted'', updated_at := 5\<rparr>)"
    using inst by (elim conjE)
  have "content (snd (delete_project example_db 5 ''p1'')) = content example_db"
    using inst by (elim conjE)
  then have c2: "content (snd (delete_project example_db 5 ''p1'')) = [example_text, example_image]"
    by (simp add: example_db_def)
  have c3: "get_projects example_db None = [example_project]"
    by (simp add: get_projects_def truthy_def example_db_def example_project_def)
  have c4: "get_projects (snd (delete_project example_db 5 ''p1'')) None = []"
    by (simp add: get_projects_def truthy_def delete_project_def example_db_def
        example_project_def)
  show ?thesis
    by (intro conjI example_get_project c1 c2 c3 c4)
qed

section \<open>Properties of compilation\<close>

lemma fold_max_ge: "a \<le> fold max ks (a::nat)"
proof (induction ks arbitrary: a)
  case Nil
  show ?case by simp
next
  case (Cons k ks)
  have "a \<le> max k a" by simp
  also have "\<dots> \<le> fold max ks (max k a)" by (rule Cons.IH)
  finally show ?case by simp
qed

lemma fold_max_upper: "k \<in> set ks \<Longrightarrow> k \<le> fold max ks (a::nat)"
proof (induction ks arbitrary: a)
  case Nil
  then show ?case by simp
next
  case (Cons x ks)
  show ?case
  proof (cases "k = x")
    case True
    have "k \<le> max x a" using True by simp
    also have "\<dots> \<le> fold max ks (max x a)" by (rule fold_max_ge)
    finally show ?thesis by simp
  next
    case False
    with Cons.prems have "k \<in> set ks" by simp
    then show ?thesis using Cons.IH by simp
  qed
qed

lemma mkdtemp_fresh: "fst (mkdtemp w) \<notin> fst ` set (temp_dirs w)"
proof
  assume "fst (mkdtemp w) \<in> fst ` set (temp_dirs w)"
  then have "Suc (fold max (map fst (temp_dirs w)) 0) \<in> set (map fst (temp_dirs w))"
    by (simp add: mkdtemp_def Let_def)
  then have "Suc (fold max (map fst (temp_dirs w)) 0) \<le> fold max (map fst (temp_dirs w)) 0"
    by (rule fold_max_upper)
  then show False by simp
qed

lemma mkdtemp_world:
  "snd (mkdtemp w) = w\<lparr>temp_dirs := AList.update (fst (mkdtemp w)) [] (temp_dirs w)\<rparr>"
  by (simp add: mkdtemp_def Let_def)

text \<open>
  The world after the body and the cleanup, by the shape of the world the body returns:
  the temporary directory is gone, and the disk is the body's.
\<close>

lemma cleanup_after_body:
  assumes "d \<notin> fst ` set (temp_dirs w)"
  shows "cleanup d (w\<lparr>temp_dirs := AList.update d fs (temp_dirs w)\<rparr>) = w"
    and "cleanup d (w\<lparr>temp_dirs := AList.update d fs (temp_dirs w), disk := dk\<rparr>) =
           w\<lparr>disk := dk\<rparr>"
  using assms by (simp_all add: cleanup_def delete_update_same)

lemma compile_pdf_not_installed:
  "\<not> latex_installed env \<Longrightarrow>
     compile_pdf env w code fn twice =
       ((None, Some ''LaTeX is not installed or not accessible''), w)"
  by (simp add: compile_pdf_def)

lemma compile_pdf_write_error:
  assumes "latex_installed env" "write_error env = Some msg"
  shows "compile_pdf env w code fn twice = ((None, Some (''PDF generation error: '' @ msg)), w)"
proof -
  have "cleanup (fst (mkdtemp w)) (snd (mkdtemp w)) = w"
    unfolding mkdtemp_world by (rule cleanup_after_body(1) [OF mkdtemp_fresh])
  then show ?thesis
    using assms by (simp add: compile_pdf_def compile_body_def split_beta)
qed

lemma compile_pdf_timeout:
  assumes "latex_installed env" "write_error env = None"
    and "run_passes env [(''document.tex'', code)] twice = (TimeoutExpired, fs)"
  shows "compile_pdf env w code fn twice = ((None, Some ''LaTeX compilation timeout''), w)"
proof -
  have "cleanup (fst (mkdtemp w))
          (w\<lparr>temp_dirs := AList.update (fst (mkdtemp w)) fs (temp_dirs w)\<rparr>) = w"
    by (rule cleanup_after_body(1) [OF mkdtemp_fresh])
  then show ?thesis
    using assms by (simp add: compile_pdf_def compile_body_def split_beta mkdtemp_world Let_def)
qed

lemma compile_pdf_raised:
  assumes "latex_installed env" "write_error env = None"
    and "run_passes env [(''document.tex'', code)] twice = (Raised msg, fs)"
  shows "compile_pdf env w code fn twice = ((None, Some (''PDF generation error: '' @ msg)), w)"
proof -
  have "cleanup (fst (mkdtemp w))
          (w\<lparr>temp_dirs := AList.update (fst (mkdtemp w)) fs (temp_dirs w)\<rparr>) = w"
    by (rule cleanup_after_body(1) [OF mkdtemp_fresh])
  then show ?thesis
    using assms by (simp add: compile_pdf_def compile_body_def split_beta mkdtemp_world Let_def)
qed

lemma compile_pdf_failed:
  assumes "latex_installed env" "write_error env = None"
    and "run_passes env [(''document.tex'', code)] twice = (Completed r, fs)"
    and "returncode r \<noteq> 0 \<or> map_of fs ''document.pdf'' = None"
  shows "compile_pdf env w code fn twice = ((None, Some (compilation_failed r)), w)"
proof -
  have "cleanup (fst (mkdtemp w))
          (w\<lparr>temp_dirs := AList.update (fst (mkdtemp w)) fs (temp_dirs w)\<rparr>) = w"
    by (rule cleanup_after_body(1) [OF mkdtemp_fresh])
  then show ?thesis
    using assms
    by (auto simp add: compile_pdf_def compile_body_def split_beta mkdtemp_world Let_def
        split: option.splits)
qed

lemma compile_pdf_copy:
  assumes "latex_installed env" "write_error env = None"
    and "run_passes env [(''document.tex'', code)] twice = (Completed r, fs)"
    and "returncode r = 0" "map_of fs ''document.pdf'' = Some pdf"
  shows "compile_pdf env w code fn twice =
     (case copy_error env of
        None \<Rightarrow> ((Some (path_join (output_dir env) (fn @ ''.pdf'')), None),
                 w\<lparr>disk := AList.update (path_join (output_dir env) (fn @ ''.pdf'')) pdf (disk w)\<rparr>)
      | Some (msg, None) \<Rightarrow> ((None, Some (''PDF generation error: '' @ msg)), w)
      | Some (msg, Some part) \<Rightarrow>
          ((None, Some (''PDF generation error: '' @ msg)),
           w\<lparr>disk := AList.update (path_join (output_dir env) (fn @ ''.pdf'')) part (disk w)\<rparr>))"
proof -
  let ?d = "fst (mkdtemp w)"
  have c2: "cleanup ?d (w\<lparr>temp_dirs := AList.update ?d fs (temp_dirs w)\<rparr>) = w"
    by (rule cleanup_after_body(1) [OF mkdtemp_fresh])
  have c3: "cleanup ?d (w\<lparr>temp_dirs := AList.update ?d fs (temp_dirs w), disk := dk\<rparr>) =
              w\<lparr>disk := dk\<rparr>" for dk
    by (rule cleanup_after_body(2) [OF mkdtemp_fresh])
  show ?thesis
    using assms c2 c3
    by (simp add: compile_pdf_def compile_body_def split_beta mkdtemp_world Let_def
        split: option.splits prod.splits)
qed

lemma compile_pdf_temp_and_disk:
  "temp_dirs (snd (compile_pdf env w code fn twice)) = temp_dirs w
   \<and> (fst (fst (compile_pdf env w code fn twice)) = None \<and> copy_error env = None
        \<longrightarrow> snd (compile_pdf env w code fn twice) = w)"
proof (cases "latex_installed env")
  case False
  then show ?thesis by (simp add: compile_pdf_not_installed)
next
  case inst: True
  show ?thesis
  proof (cases "write_error env")
    case (Some msg)
    with inst show ?thesis by (simp add: compile_pdf_write_error)
  next
    case wr: None
    obtain outcome fs where rp: "run_passes env [(''document.tex'', code)] twice = (outcome, fs)"
      by (cases "run_passes env [(''document.tex'', code)] twice")
    show ?thesis
    proof (cases outcome)
      case TimeoutExpired
      with inst wr rp show ?thesis by (simp add: compile_pdf_timeout)
    next
      case (Raised msg)
      with inst wr rp show ?thesis by (simp add: compile_pdf_raised)
    next
      case (Completed r)
      show ?thesis
      proof (cases "returncode r \<noteq> 0 \<or> map_of fs ''document.pdf'' = None")
        case True
        with inst wr rp Completed show ?thesis by (simp add: compile_pdf_failed)
      next
        case False
        then obtain pdf where "returncode r = 0" "map_of fs ''document.pdf'' = Some pdf"
          by auto
        with inst wr rp Completed
        have "compile_pdf env w code fn twice =
          (case copy_error env of
             None \<Rightarrow> ((Some (path_join (output_dir env) (fn @ ''.pdf'')), None),
                 w\<lparr>disk := AList.update (path_join (output_dir env) (fn @ ''.pdf'')) pdf (disk w)\<rparr>)
           | Some (msg, None) \<Rightarrow> ((None, Some (''PDF generation error: '' @ msg)), w)
           | Some (msg, Some part) \<Rightarrow>
              ((None, Some (''PDF generation error: '' @ msg)),
               w\<lparr>disk := AList.update (path_join (output_dir env) (fn @ ''.pdf'')) part (disk w)\<rparr>))"
          by (simp add: compile_pdf_copy)
        then show ?thesis
          by (simp split: option.splits prod.splits)
      qed
    qed
  qed
qed

text \<open>
  C4.  After \<^verbatim>\<open>compile_pdf\<close>, whatever the outcome, the temporary directories are
  those that existed before.  When it returns no path and the copy did not raise, the world
  is the one before: the disk, and with it the output directory, is unchanged.  A finished
  run with a non-zero exit code or without \<^verbatim>\<open>document.pdf\<close> gives the error
  \<^verbatim>\<open>LaTeX compilation failed:\<close> followed by the standard error of the run, or by its
  standard output when the standard error is empty; a timeout gives
  \<^verbatim>\<open>LaTeX compilation timeout\<close>; both leave the world as it was.
\<close>

theorem compile_pdf_failure_leaves_world:
  "temp_dirs (snd (compile_pdf env w code fn twice)) = temp_dirs w
   \<and> (fst (fst (compile_pdf env w code fn twice)) = None \<and> copy_error env = None
        \<longrightarrow> snd (compile_pdf env w code fn twice) = w)
   \<and> (latex_installed env \<and> write_error env = None \<longrightarrow>
        (\<forall>r fs. run_passes env [(''document.tex'', code)] twice = (Completed r, fs)
                \<and> (returncode r \<noteq> 0 \<or> map_of fs ''document.pdf'' = None) \<longrightarrow>
            compile_pdf env w code fn twice =
              ((None, Some (''LaTeX compilation failed:'' @ [NEWLINE] @
                       (if stderr r \<noteq> [] then stderr r else stdout r))), w))
        \<and> (\<forall>fs. run_passes env [(''document.tex'', code)] twice = (TimeoutExpired, fs) \<longrightarrow>
            compile_pdf env w code fn twice = ((None, Some ''LaTeX compilation timeout''), w)))"
proof (intro conjI impI allI)
  show "temp_dirs (snd (compile_pdf env w code fn twice)) = temp_dirs w"
    using compile_pdf_temp_and_disk [of env w code fn twice] by (rule conjunct1)
next
  assume "fst (fst (compile_pdf env w code fn twice)) = None \<and> copy_error env = None"
  with compile_pdf_temp_and_disk [of env w code fn twice]
  show "snd (compile_pdf env w code fn twice) = w" by (elim conjE impE) (intro conjI, assumption+)
next
  fix r fs
  assume a: "latex_installed env \<and> write_error env = None"
    and b: "run_passes env [(''document.tex'', code)] twice = (Completed r, fs)
            \<and> (returncode r \<noteq> 0 \<or> map_of fs ''document.pdf'' = None)"
  from a have a1: "latex_installed env" and a2: "write_error env = None"
    by (rule conjunct1, rule conjunct2)
  from b have b1: "run_passes env [(''document.tex'', code)] twice = (Completed r, fs)"
    and b2: "returncode r \<noteq> 0 \<or> map_of fs ''document.pdf'' = None"
    by (rule conjunct1, rule conjunct2)
  have "compile_pdf env w code fn twice = ((None, Some (compilation_failed r)), w)"
    by (rule compile_pdf_failed [OF a1 a2 b1 b2])
  then show "compile_pdf env w code fn twice =
              ((None, Some (''LaTeX compilation failed:'' @ [NEWLINE] @
                       (if stderr r \<noteq> [] then stderr r else stdout r))), w)"
    by (simp add: compilation_failed_def)
next
  fix fs
  assume a: "latex_installed env \<and> write_error env = None"
    and b: "run_passes env [(''document.tex'', code)] twice = (TimeoutExpired, fs)"
  from a have a1: "latex_installed env" and a2: "write_error env = None"
    by (rule conjunct1, rule conjunct2)
  show "compile_pdf env w code fn twice = ((None, Some ''LaTeX compilation timeout''), w)"
    by (rule compile_pdf_timeout [OF a1 a2 b])
qed

lemma failing_env_passes:
  "run_passes failing_env [(''document.tex'', code)] True =
     (Completed \<lparr>returncode = 1, stdout = ''! Missing } inserted.'', stderr = []\<rparr>,
      [(''document.tex'', code), (''document.log'', ''! Missing } inserted.'')])"
  by (simp add: run_passes_def failing_env_def)

lemma hanging_env_passes:
  "run_passes hanging_env [(''document.tex'', code)] True =
     (TimeoutExpired, [(''document.tex'', code)])"
  by (simp add: run_passes_def hanging_env_def)

text \<open>
  A document with a missing closing brace, and a compiler that hangs: the error carries
  the diagnostic, respectively names the timeout, and the world is the one before, with
  the earlier export and no temporary directory.
\<close>

theorem compile_pdf_failure_leaves_world_witness:
  "compile_pdf failing_env example_world ''{'' ''book'' True =
     ((None, Some (''LaTeX compilation failed:'' @ [NEWLINE] @ ''! Missing } inserted.'')),
      example_world)
   \<and> compile_pdf hanging_env example_world ''{'' ''book'' True =
     ((None, Some ''LaTeX compilation timeout''), example_world)
   \<and> temp_dirs (snd (compile_pdf failing_env example_world ''{'' ''book'' True)) = []"
proof -
  note f = compile_pdf_failure_leaves_world [of failing_env example_world "''{''" "''book''" True]
  note h = compile_pdf_failure_leaves_world [of hanging_env example_world "''{''" "''book''" True]
  have fe: "latex_installed failing_env \<and> write_error failing_env = None"
    by (simp add: failing_env_def)
  have he: "latex_installed hanging_env \<and> write_error hanging_env = None"
    by (simp add: hanging_env_def)
  have fp: "run_passes failing_env [(''document.tex'', ''{'')] True =
     (Completed \<lparr>returncode = 1, stdout = ''! Missing } inserted.'', stderr = []\<rparr>,
      [(''document.tex'', ''{''), (''document.log'', ''! Missing } inserted.'')])
     \<and> (returncode \<lparr>returncode = 1, stdout = ''! Missing } inserted.'', stderr = []\<rparr> \<noteq> 0
        \<or> map_of [(''document.tex'', ''{''), (''document.log'', ''! Missing } inserted.'')]
             ''document.pdf'' = None)"
    by (simp add: failing_env_passes)
  from f fe fp have c1: "compile_pdf failing_env example_world ''{'' ''book'' True =
     ((None, Some (''LaTeX compilation failed:'' @ [NEWLINE] @
        (if stderr \<lparr>returncode = 1, stdout = ''! Missing } inserted.'', stderr = []\<rparr> \<noteq> []
         then stderr \<lparr>returncode = 1, stdout = ''! Missing } inserted.'', stderr = []\<rparr>
         else stdout \<lparr>returncode = 1, stdout = ''! Missing } inserted.'', stderr = []\<rparr>))),
      example_world)"
    by blast
  from h he hanging_env_passes [of "''{''"]
  have c2: "compile_pdf hanging_env example_world ''{'' ''book'' True =
     ((None, Some ''LaTeX compilation timeout''), example_world)"
    by blast
  from f have "temp_dirs (snd (compile_pdf failing_env example_world ''{'' ''book'' True)) =
     temp_dirs example_world"
    by (rule conjunct1)
  then have c3: "temp_dirs (snd (compile_pdf failing_env example_world ''{'' ''book'' True)) = []"
    by (simp add: example_world_def)
  from c1 have c1': "compile_pdf failing_env example_world ''{'' ''book'' True =
     ((None, Some (''LaTeX compilation failed:'' @ [NEWLINE] @ ''! Missing } inserted.'')),
      example_world)"
    by simp
  show ?thesis by (intro conjI c1' c2 c3)
qed

section \<open>Properties of the audiobook companion\<close>

lemma round_half_even_near: "\<bar>of_int (round_half_even x) - x\<bar> \<le> 1 / 2"
proof -
  have "of_int \<lfloor>x\<rfloor> \<le> x" and "x < of_int \<lfloor>x\<rfloor> + 1"
    by linarith+
  then show ?thesis
    unfolding round_half_even_def Let_def
    by (auto simp add: abs_le_iff) 
qed

lemma py_round1_near: "\<bar>py_round1 x - x\<bar> \<le> 1 / 20"
proof -
  have "\<bar>of_int (round_half_even (x * 10)) - x * 10\<bar> \<le> 1 / 2"
    by (rule round_half_even_near)
  then show ?thesis
    unfolding py_round1_def by (simp add: abs_le_iff field_simps)
qed

lemma estimate_audio_duration_rounds:
  "(truthy (content_text a) \<longrightarrow>
      \<bar>estimate_audio_duration a - of_nat (length (split_ws [] (the (content_text a)))) / 150\<bar>
        \<le> 1 / 20
      \<and> (\<exists>k::int. estimate_audio_duration a = of_int k / 10))
   \<and> (\<not> truthy (content_text a) \<longrightarrow> estimate_audio_duration a = 1)"
proof (intro conjI impI)
  assume t: "truthy (content_text a)"
  then have e: "estimate_audio_duration a =
      py_round1 (of_nat (length (split_ws [] (the (content_text a)))) / 150)"
    by (simp add: estimate_audio_duration_def)
  show "\<bar>estimate_audio_duration a - of_nat (length (split_ws [] (the (content_text a)))) / 150\<bar>
        \<le> 1 / 20"
    unfolding e by (rule py_round1_near)
  show "\<exists>k::int. estimate_audio_duration a = of_int k / 10"
    unfolding e py_round1_def by (rule exI) (rule refl)
next
  assume "\<not> truthy (content_text a)"
  then show "estimate_audio_duration a = 1"
    by (simp add: estimate_audio_duration_def)
qed

lemma length_track_section: "length (track_section i a) = 4"
  by (simp add: track_section_def Let_def)

lemma tracks_Cons:
  "concat (map (\<lambda>(i, a). track_section i a) (enumerate n (x # xs))) =
     track_section n x @ concat (map (\<lambda>(i, a). track_section i a) (enumerate (Suc n) xs))"
  by simp

lemma length_tracks:
  "length (concat (map (\<lambda>(i, a). track_section i a) (enumerate n xs))) = 4 * length xs"
proof (induction xs arbitrary: n)
  case Nil
  show ?case by simp
next
  case (Cons x xs)
  show ?case
    unfolding tracks_Cons by (simp add: length_track_section Cons.IH)
qed

lemma tracks_nth:
  "j < length xs \<Longrightarrow>
     take 4 (drop (4 * j) (concat (map (\<lambda>(i, a). track_section i a) (enumerate n xs)))) =
       track_section (n + j) (xs ! j)"
proof (induction xs arbitrary: n j)
  case Nil
  then show ?case by simp
next
  case (Cons x xs)
  show ?case
  proof (cases j)
    case 0
    then show ?thesis
      unfolding tracks_Cons by (simp add: length_track_section)
  next
    case (Suc j')
    with Cons.prems have j': "j' < length xs" by simp
    have "4 * j = 4 + 4 * j'" using Suc by simp
    then have "drop (4 * j) (track_section n x @ concat (map (\<lambda>(i, a). track_section i a) (enumerate (Suc n) xs)))
      = drop (4 * j') (concat (map (\<lambda>(i, a). track_section i a) (enumerate (Suc n) xs)))"
      by (simp add: length_track_section)
    then show ?thesis
      unfolding tracks_Cons using Cons.IH [OF j', of "Suc n"] Suc by simp
  qed
qed

lemma length_audiobook_header: "length (audiobook_header p) = 20"
  by (simp add: audiobook_header_def)

lemma length_audiobook_lines: "length (audiobook_lines p xs) = 22 + 4 * length xs"
  by (simp add: audiobook_lines_def length_audiobook_header length_tracks)

lemma audiobook_lines_track:
  assumes "j < length xs"
  shows "take 4 (drop (20 + 4 * j) (audiobook_lines p xs)) = track_section (Suc j) (xs ! j)"
proof -
  let ?ts = "concat (map (\<lambda>(i, a). track_section i a) (enumerate 1 xs))"
  have "drop (20 + 4 * j) (audiobook_lines p xs) =
        drop (4 * j) ?ts @ [[], BSLASH # ''end{document}'']"
    using assms by (simp add: audiobook_lines_def length_audiobook_header length_tracks)
  moreover have "4 \<le> length (drop (4 * j) ?ts)"
    using assms by (simp add: length_tracks)
  ultimately have "take 4 (drop (20 + 4 * j) (audiobook_lines p xs)) = take 4 (drop (4 * j) ?ts)"
    by simp
  then show ?thesis
    using tracks_nth [OF assms, of 1] by simp
qed

lemma compile_pdf_error_not_no_audio:
  "snd (fst (compile_pdf env w code fn twice)) \<noteq> Some ''No audio content found in project''"
proof (cases "latex_installed env")
  case False
  then show ?thesis by (simp add: compile_pdf_not_installed)
next
  case inst: True
  show ?thesis
  proof (cases "write_error env")
    case (Some msg)
    with inst show ?thesis by (simp add: compile_pdf_write_error)
  next
    case wr: None
    obtain outcome fs where rp: "run_passes env [(''document.tex'', code)] twice = (outcome, fs)"
      by (cases "run_passes env [(''document.tex'', code)] twice")
    show ?thesis
    proof (cases outcome)
      case TimeoutExpired
      with inst wr rp show ?thesis by (simp add: compile_pdf_timeout)
    next
      case (Raised msg)
      with inst wr rp show ?thesis by (simp add: compile_pdf_raised)
    next
      case (Completed r)
      show ?thesis
      proof (cases "returncode r \<noteq> 0 \<or> map_of fs ''document.pdf'' = None")
        case True
        with inst wr rp Completed show ?thesis
          by (simp add: compile_pdf_failed compilation_failed_def)
      next
        case False
        then obtain pdf where "returncode r = 0" "map_of fs ''document.pdf'' = Some pdf"
          by auto
        with inst wr rp Completed show ?thesis
          by (simp add: compile_pdf_copy split: option.splits prod.splits)
      qed
    qed
  qed
qed

text \<open>
  C7.  For an existing project, with \<open>audios\<close> its audio items in content order: the
  companion fails with \<^verbatim>\<open>No audio content found in project\<close> exactly when there is no
  audio item, and then nothing is compiled and the world is unchanged.  Otherwise the
  document compiled is the one of \<^verbatim>\<open>_generate_audiobook_latex\<close>: twenty lines of
  preamble, then for the \<open>j\<close>-th audio item the subsection \<^verbatim>\<open>Track j+1\<close>, its file
  name, its estimated duration and a space, then the two closing lines.  The estimate is
  a whole number of tenths within a twentieth of the word count divided by 150, and it is
  1 for an item without text.
\<close>

theorem create_audiobook_companion_outcome:
  fixes db :: database and i :: string and audios :: "content_item list"
  defines "audios \<equiv> filter (\<lambda>item. content_type item = ''audio'') (get_project_content db i)"
  assumes "get_project db i = Some p"
  shows "((snd (fst (create_audiobook_companion env db w i fn)) =
            Some ''No audio content found in project'') = (audios = []))
   \<and> (audios = [] \<longrightarrow>
        create_audiobook_companion env db w i fn =
          ((None, Some ''No audio content found in project''), w))
   \<and> (audios \<noteq> [] \<longrightarrow>
        create_audiobook_companion env db w i fn =
          compile_pdf env w (join [NEWLINE] (audiobook_lines p audios)) (fn @ ''_audiobook'') True)
   \<and> length (audiobook_lines p audios) = 22 + 4 * length audios
   \<and> (\<forall>j. j < length audios \<longrightarrow>
        take 4 (drop (20 + 4 * j) (audiobook_lines p audios)) =
         [BSLASH # ''subsection*{Track '' @ str_nat (Suc j) @ ''}'',
          BSLASH # ''textbf{File:} '' @
            (if truthy (audio_path (audios ! j)) then basename (the (audio_path (audios ! j)))
             else ''track_'' @ str_nat (Suc j) @ ''.mp3'') @ [BSLASH, BSLASH],
          BSLASH # ''textbf{Duration:} Approximately '' @
            str_float1 (estimate_audio_duration (audios ! j)) @ '' minutes'' @ [BSLASH, BSLASH],
          BSLASH # ''vspace{1em}''])
   \<and> (\<forall>a. (truthy (content_text a) \<longrightarrow>
             \<bar>estimate_audio_duration a
                - of_nat (length (split_ws [] (the (content_text a)))) / 150\<bar> \<le> 1 / 20
             \<and> (\<exists>k::int. estimate_audio_duration a = of_int k / 10))
          \<and> (\<not> truthy (content_text a) \<longrightarrow> estimate_audio_duration a = 1))"
proof (intro conjI)
  have none: "create_audiobook_companion env db w i fn =
          ((None, Some ''No audio content found in project''), w)" if "audios = []"
    using that assms(2) unfolding audios_def
    by (simp add: create_audiobook_companion_def)
  have some: "create_audiobook_companion env db w i fn =
          compile_pdf env w (join [NEWLINE] (audiobook_lines p audios)) (fn @ ''_audiobook'') True"
    if "audios \<noteq> []"
    using that assms(2) unfolding audios_def
    by (simp add: create_audiobook_companion_def generate_audiobook_latex_def)
  show "(snd (fst (create_audiobook_companion env db w i fn)) =
            Some ''No audio content found in project'') = (audios = [])"
  proof (cases "audios = []")
    case True
    then show ?thesis by (simp add: none)
  next
    case False
    then show ?thesis by (simp add: some compile_pdf_error_not_no_audio)
  qed
  show "audios = [] \<longrightarrow>
        create_audiobook_companion env db w i fn =
          ((None, Some ''No audio content found in project''), w)"
    using none by (rule impI)
  show "audios \<noteq> [] \<longrightarrow>
        create_audiobook_companion env db w i fn =
          compile_pdf env w (join [NEWLINE] (audiobook_lines p audios)) (fn @ ''_audiobook'') True"
    using some by (rule impI)
  show "length (audiobook_lines p audios) = 22 + 4 * length audios"
    by (rule length_audiobook_lines)
  show "\<forall>j. j < length audios \<longrightarrow>
        take 4 (drop (20 + 4 * j) (audiobook_lines p audios)) =
         [BSLASH # ''subsection*{Track '' @ str_nat (Suc j) @ ''}'',
          BSLASH # ''textbf{File:} '' @
            (if truthy (audio_path (audios ! j)) then basename (the (audio_path (audios ! j)))
             else ''track_'' @ str_nat (Suc j) @ ''.mp3'') @ [BSLASH, BSLASH],
          BSLASH # ''textbf{Duration:} Approximately '' @
            str_float1 (estimate_audio_duration (audios ! j)) @ '' minutes'' @ [BSLASH, BSLASH],
          BSLASH # ''vspace{1em}'']"
  proof (intro allI impI)
    fix j
    assume "j < length audios"
    then have "take 4 (drop (20 + 4 * j) (audiobook_lines p audios)) =
        track_section (Suc j) (audios ! j)"
      by (rule audiobook_lines_track)
    then show "take 4 (drop (20 + 4 * j) (audiobook_lines p audios)) =
         [BSLASH # ''subsection*{Track '' @ str_nat (Suc j) @ ''}'',
          BSLASH # ''textbf{File:} '' @
            (if truthy (audio_path (audios ! j)) then basename (the (audio_path (audios ! j)))
             else ''track_'' @ str_nat (Suc j) @ ''.mp3'') @ [BSLASH, BSLASH],
          BSLASH # ''textbf{Duration:} Approximately '' @
            str_float1 (estimate_audio_duration (audios ! j)) @ '' minutes'' @ [BSLASH, BSLASH],
          BSLASH # ''vspace{1em}'']"
      by (simp add: track_section_def Let_def)
  qed
  show "\<forall>a. (truthy (content_text a) \<longrightarrow>
             \<bar>estimate_audio_duration a
                - of_nat (length (split_ws [] (the (content_text a)))) / 150\<bar> \<le> 1 / 20
             \<and> (\<exists>k::int. estimate_audio_duration a = of_int k / 10))
          \<and> (\<not> truthy (content_text a) \<longrightarrow> estimate_audio_duration a = 1)"
    by (rule allI) (rule estimate_audio_duration_rounds)
qed

lemma audio_db_get_project: "get_project audio_db ''p1'' = Some example_project"
  by (simp add: get_project_def audio_db_def example_project_def)

lemma example_db_audios:
  "filter (\<lambda>item. content_type item = ''audio'') (get_project_content example_db ''p1'') = []"
  by (simp add: get_project_content_def example_db_def example_text_def example_image_def)

lemma audio_db_audios:
  "filter (\<lambda>item. content_type item = ''audio'') (get_project_content audio_db ''p1'') =
     [example_audio]"
  by (simp add: get_project_content_def audio_db_def example_text_def example_audio_def)

lemma estimate_example_audio: "estimate_audio_duration example_audio = 1 / 10"
  by (simp add: estimate_audio_duration_def example_audio_def truthy_def isspace_def
      py_round1_def round_half_even_def)

lemma str_float1_tenth: "str_float1 (1 / 10) = ''0.1''"
  by (simp add: str_float1_def str_int_def str_nat.simps digit_char_def)

lemma example_audio_path:
  "audio_path example_audio = Some ''static/generated/p1_scene_0.mp3''"
  by (simp add: example_audio_def)

lemma str_nat_1: "str_nat (Suc 0) = ''1''"
  by (simp add: str_nat.simps digit_char_def)

text \<open>
  The example project with no audio item, and with the narration of fifteen words: the
  error and the unchanged world; the compiled document, its track and the estimate of a
  tenth of a minute.
\<close>

theorem create_audiobook_companion_outcome_witness:
  "get_project example_db ''p1'' = Some example_project
   \<and> create_audiobook_companion failing_env example_db example_world ''p1'' ''book'' =
       ((None, Some ''No audio content found in project''), example_world)
   \<and> create_audiobook_companion failing_env audio_db example_world ''p1'' ''book'' =
       compile_pdf failing_env example_world
         (join [NEWLINE] (audiobook_lines example_project [example_audio])) ''book_audiobook'' True
   \<and> take 4 (drop 20 (audiobook_lines example_project [example_audio])) =
       [BSLASH # ''subsection*{Track 1}'',
        BSLASH # ''textbf{File:} p1_scene_0.mp3'' @ [BSLASH, BSLASH],
        BSLASH # ''textbf{Duration:} Approximately 0.1 minutes'' @ [BSLASH, BSLASH],
        BSLASH # ''vspace{1em}'']
   \<and> \<bar>estimate_audio_duration example_audio - 15 / 150\<bar> \<le> 1 / 20"
proof -
  note none = create_audiobook_companion_outcome
    [OF example_get_project, where env = failing_env and w = example_world and fn = "''book''"]
  note some = create_audiobook_companion_outcome
    [OF audio_db_get_project, where env = failing_env and w = example_world and fn = "''book''"]
  have c1: "create_audiobook_companion failing_env example_db example_world ''p1'' ''book'' =
       ((None, Some ''No audio content found in project''), example_world)"
    using none example_db_audios by blast
  have ne: "filter (\<lambda>item. content_type item = ''audio'') (get_project_content audio_db ''p1'') \<noteq> []"
    by (simp add: audio_db_audios)
  have "create_audiobook_companion failing_env audio_db example_world ''p1'' ''book'' =
       compile_pdf failing_env example_world
         (join [NEWLINE] (audiobook_lines example_project
            (filter (\<lambda>item. content_type item = ''audio'') (get_project_content audio_db ''p1''))))
         (''book'' @ ''_audiobook'') True"
    using some ne by blast
  then have c2: "create_audiobook_companion failing_env audio_db example_world ''p1'' ''book'' =
       compile_pdf failing_env example_world
         (join [NEWLINE] (audiobook_lines example_project [example_audio])) ''book_audiobook'' True"
    by (simp add: audio_db_audios)
  have "\<forall>j. j < length (filter (\<lambda>item. content_type item = ''audio'') (get_project_content audio_db ''p1'')) \<longrightarrow>
        take 4 (drop (20 + 4 * j) (audiobook_lines example_project
          (filter (\<lambda>item. content_type item = ''audio'') (get_project_content audio_db ''p1'')))) =
         [BSLASH # ''subsection*{Track '' @ str_nat (Suc j) @ ''}'',
          BSLASH # ''textbf{File:} '' @
            (if truthy (audio_path (filter (\<lambda>item. content_type item = ''audio'') (get_project_content audio_db ''p1'') ! j))
             then basename (the (audio_path (filter (\<lambda>item. content_type item = ''audio'') (get_project_content audio_db ''p1'') ! j)))
             else ''track_'' @ str_nat (Suc j) @ ''.mp3'') @ [BSLASH, BSLASH],
          BSLASH # ''textbf{Duration:} Approximately '' @
            str_float1 (estimate_audio_duration (filter (\<lambda>item. content_type item = ''audio'') (get_project_content audio_db ''p1'') ! j)) @ '' minutes'' @ [BSLASH, BSLASH],
          BSLASH # ''vspace{1em}'']"
    using some by (elim conjE)
  then have "\<forall>j. j < length [example_audio] \<longrightarrow>
        take 4 (drop (20 + 4 * j) (audiobook_lines example_project [example_audio])) =
         [BSLASH # ''subsection*{Track '' @ str_nat (Suc j) @ ''}'',
          BSLASH # ''textbf{File:} '' @
            (if truthy (audio_path ([example_audio] ! j))
             then basename (the (audio_path ([example_audio] ! j)))
             else ''track_'' @ str_nat (Suc j) @ ''.mp3'') @ [BSLASH, BSLASH],
          BSLASH # ''textbf{Duration:} Approximately '' @
            str_float1 (estimate_audio_duration ([example_audio] ! j)) @ '' minutes'' @ [BSLASH, BSLASH],
          BSLASH # ''vspace{1em}'']"
    unfolding audio_db_audios .
  then have "take 4 (drop (20 + 4 * 0) (audiobook_lines example_project [example_audio])) =
         [BSLASH # ''subsection*{Track '' @ str_nat (Suc 0) @ ''}'',
          BSLASH # ''textbf{File:} '' @
            (if truthy (audio_path ([example_audio] ! 0))
             then basename (the (audio_path ([example_audio] ! 0)))
             else ''track_'' @ str_nat (Suc 0) @ ''.mp3'') @ [BSLASH, BSLASH],
          BSLASH # ''textbf{Duration:} Approximately '' @
            str_float1 (estimate_audio_duration ([example_audio] ! 0)) @ '' minutes'' @ [BSLASH, BSLASH],
          BSLASH # ''vspace{1em}'']"
    by (elim allE [where x = 0] impE) simp_all
  then have c3: "take 4 (drop 20 (audiobook_lines example_project [example_audio])) =
       [BSLASH # ''subsection*{Track 1}'',
        BSLASH # ''textbf{File:} p1_scene_0.mp3'' @ [BSLASH, BSLASH],
        BSLASH # ''textbf{Duration:} Approximately 0.1 minutes'' @ [BSLASH, BSLASH],
        BSLASH # ''vspace{1em}'']"
    by (simp add: estimate_example_audio str_float1_tenth str_nat_1 truthy_def basename_def
        example_audio_path)
  have c4: "\<bar>estimate_audio_duration example_audio - 15 / 150\<bar> \<le> 1 / 20"
    by (simp add: estimate_example_audio)
  show ?thesis
    by (intro conjI example_get_project c1 c2 c3 c4)
qed

section \<open>Properties of the rate limiter\<close>

lemma can_make_request_fields:
  "max_requests (snd (can_make_request now rl)) = max_requests rl"
  "time_window (snd (can_make_request now rl)) = time_window rl"
  "requests (snd (can_make_request now rl)) =
     filter (\<lambda>t. now - t < time_window rl) (requests rl)"
  "fst (can_make_request now rl) =
     (int (length (filter (\<lambda>t. now - t < time_window rl) (requests rl))) < max_requests rl)"
  by (simp_all add: can_make_request_def Let_def)

lemma add_request_fields:
  "max_requests (add_request now rl) = max_requests rl"
  "time_window (add_request now rl) = time_window rl"
  "requests (add_request now rl) = requests rl @ [now]"
  by (simp_all add: add_request_def)

lemma after_two_admissions:
  assumes m: "max_requests rl = 2" and tw: "time_window rl = 60"
    and ok2: "fst (can_make_request c2 (add_request a1 (snd (can_make_request c1 rl))))"
    and in2: "c2 - a1 < 60"
  shows "requests (add_request a2
           (snd (can_make_request c2 (add_request a1 (snd (can_make_request c1 rl)))))) = [a1, a2]"
proof -
  let ?old = "filter (\<lambda>t. c2 - t < 60) (filter (\<lambda>t. c1 - t < 60) (requests rl))"
  from ok2 have "int (length (?old @ [a1])) < 2"
    using in2 by (simp add: can_make_request_fields add_request_fields m tw)
  then have "?old = []" by simp
  then show ?thesis
    using in2 by (simp add: can_make_request_fields add_request_fields m tw)
qed

text \<open>
  C5.  A limiter of two requests per sixty seconds.  A request is admitted exactly when
  fewer than two recorded timestamps are later than sixty seconds before now.  After two
  admissions, recorded at \<open>a1\<close> and then \<open>a2\<close>, a check while both are in the window is
  rejected; \<^verbatim>\<open>time_until_next_request\<close>, while both are in the window at both of its
  clock readings, gives the positive time until \<open>a1\<close> leaves the window; and a check sixty
  seconds or more after \<open>a1\<close> is admitted.
\<close>

theorem rate_limiter_two_per_window:
  fixes rl r4 :: rate_limiter and c1 a1 c2 a2 :: real
  defines "r4 \<equiv> add_request a2
             (snd (can_make_request c2 (add_request a1 (snd (can_make_request c1 rl)))))"
  assumes "max_requests rl = 2" and "time_window rl = 60"
  shows "(fst (can_make_request now rl) \<longleftrightarrow>
            length (filter (\<lambda>t. now - 60 < t) (requests rl)) < 2)
   \<and> (fst (can_make_request c1 rl)
       \<and> fst (can_make_request c2 (add_request a1 (snd (can_make_request c1 rl))))
       \<and> c2 - a1 < 60 \<and> a1 \<le> a2 \<longrightarrow>
        (c3 - a1 < 60 \<and> c3 - a2 < 60 \<longrightarrow> \<not> fst (can_make_request c3 r4))
        \<and> (n1 - a1 < 60 \<and> n1 - a2 < 60 \<and> n2 - a1 < 60 \<longrightarrow>
             fst (time_until_next_request n1 n2 r4) = Inr (60 - (n2 - a1))
             \<and> 0 < 60 - (n2 - a1))
        \<and> (60 \<le> c4 - a1 \<longrightarrow> fst (can_make_request c4 r4)))"
proof (intro conjI impI)
  have "(\<lambda>t. now - t < time_window rl) = (\<lambda>t. now - 60 < t)"
    by (rule ext) (auto simp add: assms(3))
  then show "fst (can_make_request now rl) \<longleftrightarrow>
            length (filter (\<lambda>t. now - 60 < t) (requests rl)) < 2"
    by (simp add: can_make_request_fields assms(2))
next
  assume a: "fst (can_make_request c1 rl)
       \<and> fst (can_make_request c2 (add_request a1 (snd (can_make_request c1 rl))))
       \<and> c2 - a1 < 60 \<and> a1 \<le> a2"
  then have req: "requests r4 = [a1, a2]"
    unfolding r4_def by (intro after_two_admissions assms(2,3)) simp_all
  have mx: "max_requests r4 = 2" and tw: "time_window r4 = 60"
    unfolding r4_def by (simp_all add: can_make_request_fields add_request_fields assms(2,3))
  from a have le: "a1 \<le> a2" by simp
  {
    assume "c3 - a1 < 60 \<and> c3 - a2 < 60"
    then show "\<not> fst (can_make_request c3 r4)"
      by (simp add: can_make_request_fields req mx tw)
  }
  {
    assume b: "n1 - a1 < 60 \<and> n1 - a2 < 60 \<and> n2 - a1 < 60"
    then have f: "filter (\<lambda>req_time. n1 - req_time < 60) (requests r4) = requests r4"
      by (simp add: req)
    have l: "length (requests r4) = 2"
      by (simp add: req)
    have "can_make_request n1 r4 = (False, r4)"
      by (simp add: can_make_request_def Let_def tw f mx l)
    then show "fst (time_until_next_request n1 n2 r4) = Inr (60 - (n2 - a1))"
      using le by (simp add: time_until_next_request_def req tw min_def)
    from b show "0 < 60 - (n2 - a1)" by simp
  }
  {
    assume "60 \<le> c4 - a1"
    then show "fst (can_make_request c4 r4)"
      by (simp add: can_make_request_fields req mx tw)
  }
qed

text \<open>
  A fresh limiter; admissions at times 0 and 10; a third check at time 20 is rejected with
  40 seconds to wait; at time 60 the next request is admitted.
\<close>

theorem rate_limiter_two_per_window_witness:
  "max_requests (RateLimiter 2 60) = 2 \<and> time_window (RateLimiter 2 60) = 60
   \<and> fst (can_make_request 0 (RateLimiter 2 60))
   \<and> fst (can_make_request 10 (add_request 0 (snd (can_make_request 0 (RateLimiter 2 60)))))
   \<and> \<not> fst (can_make_request 20
        (add_request 10 (snd (can_make_request 10
           (add_request 0 (snd (can_make_request 0 (RateLimiter 2 60))))))))
   \<and> fst (time_until_next_request 20 20
        (add_request 10 (snd (can_make_request 10
           (add_request 0 (snd (can_make_request 0 (RateLimiter 2 60)))))))) = Inr 40
   \<and> fst (can_make_request 60
        (add_request 10 (snd (can_make_request 10
           (add_request 0 (snd (can_make_request 0 (RateLimiter 2 60))))))))"
proof -
  have h1: "max_requests (RateLimiter 2 60) = 2" and h2: "time_window (RateLimiter 2 60) = 60"
    by (simp_all add: RateLimiter_def)
  have h3: "fst (can_make_request 0 (RateLimiter 2 60))"
    by (simp add: can_make_request_def RateLimiter_def)
  have h4: "fst (can_make_request 10 (add_request 0 (snd (can_make_request 0 (RateLimiter 2 60)))))"
    by (simp add: can_make_request_def add_request_def RateLimiter_def)
  note inst = rate_limiter_two_per_window
    [OF h1 h2, where ?c1.0 = 0 and ?a1.0 = 0 and ?c2.0 = 10 and ?a2.0 = 10 and ?c3.0 = 20
       and ?n1.0 = 20 and ?n2.0 = 20 and ?c4.0 = 60 and now = 0]
  from inst h3 h4
  have c: "\<not> fst (can_make_request 20
        (add_request 10 (snd (can_make_request 10
           (add_request 0 (snd (can_make_request 0 (RateLimiter 2 60))))))))
    \<and> fst (time_until_next_request 20 20
        (add_request 10 (snd (can_make_request 10
           (add_request 0 (snd (can_make_request 0 (RateLimiter 2 60)))))))) = Inr (60 - (20 - 0))
    \<and> fst (can_make_request 60
        (add_request 10 (snd (can_make_request 10
           (add_request 0 (snd (can_make_request 0 (RateLimiter 2 60))))))))"
    by simp
  then show ?thesis
    using h1 h2 h3 h4 by simp
qed

section \<open>Properties of template filling\<close>













end
